theory Spec2Isabelle
  imports Complex_Main "HOL-Library.List_Lexorder" "HOL-Library.Multiset"
begin

section \<open>Python values, errors and arrays\<close>

text \<open>
  The module \<^verbatim>\<open>cleanlab/internal/multilabel_scorer.py\<close> computes with numpy arrays of
  floats. Floats are modelled as real numbers (no rounding, no NaN except where a division
  by zero produces one, see \<open>npfloat\<close> below), Python's unbounded integers as \<open>int\<close>.

  An exception is a value of \<open>py_error\<close>; a function that can raise returns
  \<open>py_error + 'a\<close> with \<open>Inl\<close> for the exception. The message of an exception is
  kept as the pieces of its f-string: literal text, and numbers that Python would format.
  The messages of errors raised inside numpy are not modelled (they are \<open>[]\<close>).
\<close>

datatype piece = Lit string | Num real

type_synonym message = "piece list"

datatype py_error =
    ValueError message
  | TypeError message
  | AssertionError message
  | AttributeError message
  | IndexError message
  | AxisError message

text \<open>
  A 2-dimensional \<^verbatim>\<open>np.ndarray\<close>: its rows, and its number of columns
  (\<^verbatim>\<open>a.shape[1]\<close>), which the rows alone do not give when there are none.
\<close>

datatype 'a mat = Mat (ncols: nat) (rows: "'a list list")

definition nrows :: "'a mat \<Rightarrow> nat" where
  "nrows m = length (rows m)"

definition wf_mat :: "'a mat \<Rightarrow> bool" where
  "wf_mat m = list_all (\<lambda>r. length r = ncols m) (rows m)"

definition col :: "'a mat \<Rightarrow> nat \<Rightarrow> 'a list" where
  "col m j = map (\<lambda>r. r ! j) (rows m)"

text \<open>\<^verbatim>\<open>a.T\<close>\<close>

definition transpose_mat :: "'a mat \<Rightarrow> 'a mat" where
  "transpose_mat m = Mat (nrows m) (map (col m) [0..<ncols m])"

text \<open>
  \<^verbatim>\<open>np.sort(a, axis=axis)\<close> on a 2-dimensional array: ascending along the rows for
  axis 1 (or -1), along the columns for axis 0 (or -2), an \<^verbatim>\<open>AxisError\<close> otherwise.
\<close>

definition np_sort :: "real mat \<Rightarrow> int \<Rightarrow> py_error + real mat" where
  "np_sort a axis =
     (if axis = 1 \<or> axis = -1 then Inr (Mat (ncols a) (map sort (rows a)))
      else if axis = 0 \<or> axis = -2 then
        Inr (transpose_mat (Mat (nrows a) (map sort (rows (transpose_mat a)))))
      else Inl (AxisError []))"

text \<open>\<^verbatim>\<open>np.fliplr\<close>: every row reversed.\<close>

definition fliplr :: "'a mat \<Rightarrow> 'a mat" where
  "fliplr m = Mat (ncols m) (map rev (rows m))"

section \<open>The exponential moving average\<close>

text \<open>
  One pass of the loop body \<^verbatim>\<open>s_ema = alpha * s_i + (1 - alpha) * s_ema\<close>, on
  vectors with one entry per example.
\<close>

definition ema_update :: "real \<Rightarrow> real list \<Rightarrow> real list \<Rightarrow> real list" where
  "ema_update alpha s_ema s_i = map2 (\<lambda>x e. alpha * x + (1 - alpha) * e) s_i s_ema"

text \<open>
  \<^verbatim>\<open>exponential_moving_average(s, *, alpha=None, axis=1, **_)\<close>. The sort comes before
  the check of alpha, and \<^verbatim>\<open>s_T[0]\<close> raises \<^verbatim>\<open>IndexError\<close> when the array has no
  column.
\<close>

definition exponential_moving_average ::
  "real mat \<Rightarrow> real option \<Rightarrow> int \<Rightarrow> py_error + real list" where
  "exponential_moving_average s alpha axis =
     (let K = ncols s in
      case np_sort s axis of
        Inl e \<Rightarrow> Inl e
      | Inr srt \<Rightarrow>
          let s_sorted = fliplr srt;
              alpha' = (case alpha of None \<Rightarrow> 2 / (real K + 1) | Some a \<Rightarrow> a)
          in if \<not> (0 \<le> alpha' \<and> alpha' \<le> 1)
             then Inl (ValueError [Lit ''alpha must be in the interval [0, 1], got '', Num alpha'])
             else (case rows (transpose_mat s_sorted) of
                     [] \<Rightarrow> Inl (IndexError [])
                   | s_ema # s_next \<Rightarrow> Inr (foldl (ema_update alpha') s_ema s_next)))"

text \<open>
  The reduction as the specification words it, for one row: sort the scores in descending
  order, start the running average at the largest, and fold the remaining ranks in with
  \<open>running_avg \<leftarrow> alpha * score_i + (1 - alpha) * running_avg\<close>.
\<close>

definition ema_of_row :: "real \<Rightarrow> real list \<Rightarrow> real" where
  "ema_of_row alpha r =
     (let d = rev (sort r)
      in foldl (\<lambda>running_avg score_i. alpha * score_i + (1 - alpha) * running_avg) (hd d) (tl d))"

text \<open>The forgetting factor in force: the caller's, or \<open>2 / (K + 1)\<close>.\<close>

definition effective_alpha :: "nat \<Rightarrow> real option \<Rightarrow> real" where
  "effective_alpha K alpha = (case alpha of None \<Rightarrow> 2 / (real K + 1) | Some a \<Rightarrow> a)"

definition alpha_supplied_in_range :: "real option \<Rightarrow> bool" where
  "alpha_supplied_in_range alpha = (case alpha of None \<Rightarrow> True | Some a \<Rightarrow> 0 \<le> a \<and> a \<le> 1)"

section \<open>Keyword arguments and messages\<close>

text \<open>
  The values a keyword argument takes in this module, and the dictionary that
  \<^verbatim>\<open>**kwargs\<close> collects: the keywords left once Python has bound the parameters the
  callee names.
\<close>

datatype pyval = PNone | PBool bool | PInt int | PFloat real | PStr string

type_synonym kwargs = "string \<rightharpoonup> pyval"

text \<open>\<^verbatim>\<open>str(type(x))\<close> for an object whose type is called \<open>name\<close>.\<close>

definition quoted :: "string \<Rightarrow> string" where
  "quoted s = CHR 0x27 # s @ [CHR 0x27]"

definition type_repr :: "string \<Rightarrow> string" where
  "type_repr name = ''<class '' @ quoted name @ ''>''"

text \<open>\<^verbatim>\<open>str\<close> of a non-negative integer and of a shape tuple: \<^verbatim>\<open>()\<close>, \<^verbatim>\<open>(3,)\<close>, \<^verbatim>\<open>(2, 3)\<close>.\<close>

definition digit_char :: "nat \<Rightarrow> char" where
  "digit_char d = ''0123456789'' ! d"

function str_nat :: "nat \<Rightarrow> string" where
  "str_nat n = (if n < 10 then [digit_char n] else str_nat (n div 10) @ [digit_char (n mod 10)])"
  by pat_completeness auto
termination
  by (relation "measure id") auto

fun join_comma :: "string list \<Rightarrow> string" where
  "join_comma [] = []"
| "join_comma [x] = x"
| "join_comma (x # y # zs) = x @ '', '' @ join_comma (y # zs)"

definition str_shape :: "nat list \<Rightarrow> string" where
  "str_shape sh =
     (case sh of
        [n] \<Rightarrow> ''('' @ str_nat n @ '',)''
      | _ \<Rightarrow> ''('' @ join_comma (map str_nat sh) @ '')'')"

section \<open>Aggregator\<close>

text \<open>
  A reduction as the aggregator calls it, \<^verbatim>\<open>method(scores, **kw)\<close>: a function of the
  score matrix and the keyword dictionary. What is passed as \<^verbatim>\<open>method\<close> is either such
  a callable, or some other object, of which only the name of its type matters.
\<close>

type_synonym reduction = "real mat \<Rightarrow> kwargs \<Rightarrow> py_error + real list"

datatype method_obj = Callable reduction | NotCallable string

record Aggregator =
  agg_method :: reduction
  agg_kwargs :: kwargs

text \<open>\<^verbatim>\<open>Aggregator._validate_method\<close>: an \<^verbatim>\<open>assert\<close>.\<close>

definition validate_method :: "method_obj \<Rightarrow> py_error + reduction" where
  "validate_method m =
     (case m of
        Callable f \<Rightarrow> Inr f
      | NotCallable ty \<Rightarrow>
          Inl (AssertionError [Lit ''Expected callable method, got '', Lit (type_repr ty)]))"

text \<open>\<^verbatim>\<open>Aggregator.__init__(self, method, **kwargs)\<close>\<close>

definition Aggregator_init :: "method_obj \<Rightarrow> kwargs \<Rightarrow> py_error + Aggregator" where
  "Aggregator_init m kw =
     (case validate_method m of
        Inl e \<Rightarrow> Inl e
      | Inr f \<Rightarrow> Inr \<lparr>agg_method = f, agg_kwargs = kw\<rparr>)"

text \<open>
  What can be passed as \<^verbatim>\<open>scores\<close>: a 2-dimensional array; an array of another
  dimension, of which only the shape matters; or an object that is no array, with the name
  of its type and its \<^verbatim>\<open>shape\<close> attribute if it has one.
\<close>

datatype scores_obj =
    Array2 "real mat"
  | ArrayN "nat list"
  | OtherObj string "nat list option"

text \<open>
  \<^verbatim>\<open>Aggregator._validate_scores\<close>, returning the array when it passes. The message is
  built from \<^verbatim>\<open>type(scores)\<close> and \<^verbatim>\<open>scores.shape\<close>; reading the shape of an object
  that has none raises \<^verbatim>\<open>AttributeError\<close>, and that is the exception then.
\<close>

definition scores_message :: "string \<Rightarrow> nat list \<Rightarrow> message" where
  "scores_message ty sh =
     [Lit ''Expected 2D array for scores, got '', Lit (type_repr ty),
      Lit '' with shape '', Lit (str_shape sh)]"

definition validate_scores :: "scores_obj \<Rightarrow> py_error + real mat" where
  "validate_scores scores =
     (case scores of
        Array2 m \<Rightarrow> Inr m
      | ArrayN sh \<Rightarrow> Inl (ValueError (scores_message ''numpy.ndarray'' sh))
      | OtherObj ty (Some sh) \<Rightarrow> Inl (ValueError (scores_message ty sh))
      | OtherObj ty None \<Rightarrow>
          Inl (AttributeError [Lit (quoted ty), Lit '' object has no attribute '',
                               Lit (quoted ''shape'')]))"

text \<open>
  The dictionary the reduction receives: \<^verbatim>\<open>{**kwargs, **self.kwargs}\<close> after
  \<^verbatim>\<open>kwargs["axis"] = 1\<close>; in a dictionary display the later entry wins.
\<close>

definition merge_kwargs :: "Aggregator \<Rightarrow> kwargs \<Rightarrow> kwargs" where
  "merge_kwargs self kw = (kw(''axis'' \<mapsto> PInt 1)) ++ agg_kwargs self"

text \<open>\<^verbatim>\<open>Aggregator.__call__(self, scores, **kwargs)\<close>\<close>

definition Aggregator_call :: "Aggregator \<Rightarrow> scores_obj \<Rightarrow> kwargs \<Rightarrow> py_error + real list" where
  "Aggregator_call self scores kw =
     (case validate_scores scores of
        Inl e \<Rightarrow> Inl e
      | Inr m \<Rightarrow> agg_method self m (merge_kwargs self kw))"

text \<open>
  \<open>exponential_moving_average\<close> called with a keyword dictionary: \<^verbatim>\<open>s\<close> is already
  given by position, \<^verbatim>\<open>alpha\<close> and \<^verbatim>\<open>axis\<close> are read, and \<^verbatim>\<open>**_\<close> swallows the
  rest. A string for alpha fails in the comparison \<^verbatim>\<open>0 <= alpha\<close>, after the sort.
\<close>

definition ema_reduction :: reduction where
  "ema_reduction s kw =
     (if ''s'' \<in> dom kw then Inl (TypeError [])
      else
        (case (case kw ''axis'' of None \<Rightarrow> Some 1 | Some (PInt i) \<Rightarrow> Some i | Some _ \<Rightarrow> None) of
           None \<Rightarrow> Inl (TypeError [])
         | Some axis \<Rightarrow>
             (case kw ''alpha'' of
                None \<Rightarrow> exponential_moving_average s None axis
              | Some PNone \<Rightarrow> exponential_moving_average s None axis
              | Some (PFloat a) \<Rightarrow> exponential_moving_average s (Some a) axis
              | Some (PInt i) \<Rightarrow> exponential_moving_average s (Some (real_of_int i)) axis
              | Some (PBool b) \<Rightarrow> exponential_moving_average s (Some (if b then 1 else 0)) axis
              | Some (PStr _) \<Rightarrow>
                  (case np_sort s axis of Inl e \<Rightarrow> Inl e | Inr _ \<Rightarrow> Inl (TypeError [])))))"

text \<open>
  \<^verbatim>\<open>np.min(a, axis=...)\<close> as a reduction: the minimum of each row for axis 1, of each
  column for axis 0. A reduction over an empty axis raises \<^verbatim>\<open>ValueError\<close>. The other
  keywords of \<^verbatim>\<open>np.min\<close> are not modelled.
\<close>

definition np_min :: reduction where
  "np_min a kw =
     (if \<not> dom kw \<subseteq> {''axis''} then Inl (TypeError [])
      else
        (case kw ''axis'' of
           Some (PInt i) \<Rightarrow>
             (if i = 1 \<or> i = -1 then
                (if ncols a = 0 then Inl (ValueError []) else Inr (map (\<lambda>r. Min (set r)) (rows a)))
              else if i = 0 \<or> i = -2 then
                (if nrows a = 0 then Inl (ValueError [])
                 else Inr (map (\<lambda>r. Min (set r)) (rows (transpose_mat a))))
              else Inl (AxisError []))
         | _ \<Rightarrow> Inl (TypeError [])))"

text \<open>The default aggregator, \<^verbatim>\<open>Aggregator(exponential_moving_average, alpha=0.8)\<close>.\<close>

definition default_aggregator :: Aggregator where
  "default_aggregator = \<lparr>agg_method = ema_reduction, agg_kwargs = [''alpha'' \<mapsto> PFloat (8/10)]\<rparr>"


section \<open>ClassLabelScorer\<close>

datatype ClassLabelScorer = SELF_CONFIDENCE | NORMALIZED_MARGIN | CONFIDENCE_WEIGHTED_ENTROPY

text \<open>\<^verbatim>\<open>str(self)\<close> of a member: the name of the enumeration, a dot, the name of the member.\<close>

definition member_name :: "ClassLabelScorer \<Rightarrow> string" where
  "member_name self =
     (case self of
        SELF_CONFIDENCE \<Rightarrow> ''SELF_CONFIDENCE''
      | NORMALIZED_MARGIN \<Rightarrow> ''NORMALIZED_MARGIN''
      | CONFIDENCE_WEIGHTED_ENTROPY \<Rightarrow> ''CONFIDENCE_WEIGHTED_ENTROPY'')"

definition ClassLabelScorer_str :: "ClassLabelScorer \<Rightarrow> string" where
  "ClassLabelScorer_str self = ''ClassLabelScorer.'' @ member_name self"








text \<open>
  The functions imported from modules that are not among the sources, taken as parameters:
  the confident-threshold adjuster \<^verbatim>\<open>_subtract_confident_thresholds\<close> and two of the three
  scoring functions of \<^verbatim>\<open>cleanlab.rank\<close>. Each may raise.
\<close>

record externals =
  subtract_confident_thresholds :: "int list \<Rightarrow> real mat \<Rightarrow> py_error + real mat"
  get_normalized_margin_for_each_label :: "int list \<Rightarrow> real mat \<Rightarrow> py_error + real list"
  get_confidence_weighted_entropy_for_each_label :: "int list \<Rightarrow> real mat \<Rightarrow> py_error + real list"

text \<open>Indexing a sequence as Python does: a negative index counts from the end.\<close>

definition py_index :: "'a list \<Rightarrow> int \<Rightarrow> py_error + 'a" where
  "py_index xs i =
     (if 0 \<le> i \<and> i < int (length xs) then Inr (xs ! nat i)
      else if - int (length xs) \<le> i \<and> i < 0 then Inr (xs ! nat (int (length xs) + i))
      else Inl (IndexError []))"

text \<open>Results collected in order, stopping at the first exception.\<close>

fun collect :: "(py_error + 'a) list \<Rightarrow> py_error + 'a list" where
  "collect [] = Inr []"
| "collect (Inl e # _) = Inl e"
| "collect (Inr x # rest) = (case collect rest of Inl e \<Rightarrow> Inl e | Inr xs \<Rightarrow> Inr (x # xs))"

text \<open>
  Modelled from the spec: \<^verbatim>\<open>cleanlab.rank.get_self_confidence_for_each_label\<close> is not
  among the sources. The specification treats it as a function from a binary label vector
  and a 2-column probability matrix to one score per example, and the docstring of
  \<^verbatim>\<open>ClassLabelScorer.__call__\<close> shows it on an example: the score of example \<open>i\<close> is
  the probability predicted for its given label, \<^verbatim>\<open>pred_probs[i, labels[i]]\<close>.
\<close>

definition get_self_confidence_for_each_label :: "int list \<Rightarrow> real mat \<Rightarrow> py_error + real list" where
  "get_self_confidence_for_each_label labels pred_probs =
     collect (map (\<lambda>(i, l). if i < nrows pred_probs then py_index (rows pred_probs ! i) l
                             else Inl (IndexError []))
                  (zip [0..<length labels] labels))"

text \<open>\<^verbatim>\<open>self.value\<close>: the scoring function a member wraps.\<close>

definition ClassLabelScorer_fn ::
  "externals \<Rightarrow> ClassLabelScorer \<Rightarrow> int list \<Rightarrow> real mat \<Rightarrow> py_error + real list" where
  "ClassLabelScorer_fn ext self =
     (case self of
        SELF_CONFIDENCE \<Rightarrow> get_self_confidence_for_each_label
      | NORMALIZED_MARGIN \<Rightarrow> get_normalized_margin_for_each_label ext
      | CONFIDENCE_WEIGHTED_ENTROPY \<Rightarrow> get_confidence_weighted_entropy_for_each_label ext)"

text \<open>
  \<^verbatim>\<open>ClassLabelScorer._adjust_pred_probs\<close>. The test is
  \<^verbatim>\<open>kwargs.get("adjust_pred_probs", False) is True\<close>: only the boolean \<^verbatim>\<open>True\<close> itself
  passes it.
\<close>

definition adjust_pred_probs ::
  "externals \<Rightarrow> ClassLabelScorer \<Rightarrow> int list \<Rightarrow> real mat \<Rightarrow> kwargs \<Rightarrow> py_error + real mat" where
  "adjust_pred_probs ext self labels pred_probs kw =
     (if kw ''adjust_pred_probs'' = Some (PBool True) then
        (if self = CONFIDENCE_WEIGHTED_ENTROPY then
           Inl (ValueError [Lit ''adjust_pred_probs is not currently supported for '',
                            Lit (ClassLabelScorer_str self), Lit ''.''])
         else subtract_confident_thresholds ext labels pred_probs)
      else Inr pred_probs)"

text \<open>\<^verbatim>\<open>ClassLabelScorer.__call__(self, labels, pred_probs, **kwargs)\<close>\<close>

definition ClassLabelScorer_call ::
  "externals \<Rightarrow> ClassLabelScorer \<Rightarrow> int list \<Rightarrow> real mat \<Rightarrow> kwargs \<Rightarrow> py_error + real list" where
  "ClassLabelScorer_call ext self labels pred_probs kw =
     (case adjust_pred_probs ext self labels pred_probs kw of
        Inl e \<Rightarrow> Inl e
      | Inr adjusted \<Rightarrow> ClassLabelScorer_fn ext self labels adjusted)"

section \<open>MultilabelScorer\<close>

record MultilabelScorer =
  base_scorer :: ClassLabelScorer
  aggregator :: Aggregator
  strict :: bool

text \<open>
  \<^verbatim>\<open>MultilabelScorer.__init__\<close>: the aggregator is an \<^verbatim>\<open>Aggregator\<close>, or anything else,
  which is then wrapped in one without bound keywords.
\<close>

datatype aggregator_arg = AnAggregator Aggregator | NoAggregator method_obj

definition MultilabelScorer_init ::
  "ClassLabelScorer \<Rightarrow> aggregator_arg \<Rightarrow> bool \<Rightarrow> py_error + MultilabelScorer" where
  "MultilabelScorer_init scorer agg strict_flag =
     (case agg of
        AnAggregator a \<Rightarrow> Inr \<lparr>base_scorer = scorer, aggregator = a, strict = strict_flag\<rparr>
      | NoAggregator m \<Rightarrow>
          (case Aggregator_init m Map.empty of
             Inl e \<Rightarrow> Inl e
           | Inr a \<Rightarrow> Inr \<lparr>base_scorer = scorer, aggregator = a, strict = strict_flag\<rparr>))"

text \<open>\<^verbatim>\<open>MultilabelScorer()\<close>, all arguments defaulted.\<close>

definition default_scorer :: MultilabelScorer where
  "default_scorer =
     \<lparr>base_scorer = SELF_CONFIDENCE, aggregator = default_aggregator, strict = True\<rparr>"

text \<open>
  Modelled from the spec: \<^verbatim>\<open>cleanlab.internal.multilabel_utils._is_multilabel\<close> is not
  among the sources; by the specification, labels are in multi-label indicator format when
  they are a 2-dimensional array of 0/1 entries.
\<close>

definition is_multilabel :: "int mat \<Rightarrow> bool" where
  "is_multilabel y = list_all (list_all (\<lambda>x. x = 0 \<or> x = 1)) (rows y)"

text \<open>
  Modelled from the spec: \<^verbatim>\<open>cleanlab.internal.multilabel_utils.stack_complement\<close> is not
  among the sources; by the specification it builds the 2-column probability matrix
  \<^verbatim>\<open>[1 - pred_probs[:,i], pred_probs[:,i]]\<close> from a column of probabilities.
\<close>

definition stack_complement :: "real list \<Rightarrow> real mat" where
  "stack_complement pred_prob_slice = Mat 2 (map (\<lambda>p. [1 - p, p]) pred_prob_slice)"

text \<open>
  \<^verbatim>\<open>MultilabelScorer._validate_labels_and_pred_probs\<close>. The labels are an array by their
  type here, so the \<^verbatim>\<open>TypeError\<close> of the first check cannot arise.
\<close>

definition validate_labels_and_pred_probs :: "int mat \<Rightarrow> real mat \<Rightarrow> py_error + unit" where
  "validate_labels_and_pred_probs labels pred_probs =
     (if \<not> is_multilabel labels then
        Inl (ValueError [Lit ''Labels must be in multi-label format.''])
      else if (nrows labels, ncols labels) \<noteq> (nrows pred_probs, ncols pred_probs) then
        Inl (ValueError [Lit ''Labels and predicted probabilities must have the same shape.''])
      else Inr ())"

text \<open>\<^verbatim>\<open>np.zeros(shape=(n, k))\<close>\<close>

definition np_zeros :: "nat \<Rightarrow> nat \<Rightarrow> real mat" where
  "np_zeros n k = Mat k (replicate n (replicate k 0))"

text \<open>
  The assignment \<^verbatim>\<open>scores[:, i] = v\<close>: \<open>v\<close> has one entry per row, or a single entry
  that is broadcast; any other length raises \<^verbatim>\<open>ValueError\<close>.
\<close>

definition set_column :: "real mat \<Rightarrow> nat \<Rightarrow> real list \<Rightarrow> py_error + real mat" where
  "set_column scores i v =
     (if length v = nrows scores then
        Inr (Mat (ncols scores) (map2 (\<lambda>r x. r[i := x]) (rows scores) v))
      else if length v = 1 then
        Inr (Mat (ncols scores) (map (\<lambda>r. r[i := hd v]) (rows scores)))
      else Inl (ValueError []))"

text \<open>
  The call \<^verbatim>\<open>self.base_scorer(label_i, pred_prob_i_two_columns, **base_scorer_kwargs)\<close>:
  a keyword that names a parameter already given by position is a \<^verbatim>\<open>TypeError\<close>.
\<close>

definition call_base_scorer ::
  "externals \<Rightarrow> ClassLabelScorer \<Rightarrow> int list \<Rightarrow> real mat \<Rightarrow> kwargs \<Rightarrow> py_error + real list" where
  "call_base_scorer ext scorer label_i two_columns kw =
     (if ''self'' \<in> dom kw \<or> ''labels'' \<in> dom kw \<or> ''pred_probs'' \<in> dom kw
      then Inl (TypeError [])
      else ClassLabelScorer_call ext scorer label_i two_columns kw)"

text \<open>
  The loop over \<^verbatim>\<open>enumerate(zip(labels.T, pred_probs.T))\<close>, from column \<open>i\<close> on, with
  the score matrix filled so far.
\<close>

fun score_columns ::
  "externals \<Rightarrow> ClassLabelScorer \<Rightarrow> kwargs \<Rightarrow> (int list \<times> real list) list \<Rightarrow> nat \<Rightarrow> real mat
   \<Rightarrow> py_error + real mat" where
  "score_columns ext scorer kw [] i scores = Inr scores"
| "score_columns ext scorer kw ((label_i, pred_prob_i) # rest) i scores =
     (case call_base_scorer ext scorer label_i (stack_complement pred_prob_i) kw of
        Inl e \<Rightarrow> Inl e
      | Inr v \<Rightarrow>
          (case set_column scores i v of
             Inl e \<Rightarrow> Inl e
           | Inr scores' \<Rightarrow> score_columns ext scorer kw rest (Suc i) scores'))"

text \<open>
  \<^verbatim>\<open>MultilabelScorer.__call__(self, labels, pred_probs, base_scorer_kwargs=None,
  **aggregator_kwargs)\<close>. In the last call a keyword \<^verbatim>\<open>scores\<close> would name the
  parameter of \<^verbatim>\<open>Aggregator.__call__\<close> that is given by position.
\<close>

definition MultilabelScorer_call ::
  "externals \<Rightarrow> MultilabelScorer \<Rightarrow> int mat \<Rightarrow> real mat \<Rightarrow> kwargs option \<Rightarrow> kwargs
   \<Rightarrow> py_error + real list" where
  "MultilabelScorer_call ext self labels pred_probs base_scorer_kwargs aggregator_kwargs =
     (case (if strict self then validate_labels_and_pred_probs labels pred_probs else Inr ()) of
        Inl e \<Rightarrow> Inl e
      | Inr _ \<Rightarrow>
          (let scores = np_zeros (nrows labels) (ncols labels);
               bkw = (case base_scorer_kwargs of None \<Rightarrow> Map.empty | Some k \<Rightarrow> k)
           in case score_columns ext (base_scorer self) bkw
                     (zip (rows (transpose_mat labels)) (rows (transpose_mat pred_probs))) 0 scores of
                Inl e \<Rightarrow> Inl e
              | Inr scores' \<Rightarrow>
                  (if ''scores'' \<in> dom aggregator_kwargs then Inl (TypeError [])
                   else Aggregator_call (aggregator self) (Array2 scores') aggregator_kwargs)))"

text \<open>\<^verbatim>\<open>MultilabelScorer(aggregator=np.min)\<close>\<close>

definition min_scorer :: MultilabelScorer where
  "min_scorer =
     \<lparr>base_scorer = SELF_CONFIDENCE,
      aggregator = \<lparr>agg_method = np_min, agg_kwargs = Map.empty\<rparr>, strict = True\<rparr>"

text \<open>Some functions to stand for the external ones in examples.\<close>

definition sample_externals :: externals where
  "sample_externals =
     \<lparr>subtract_confident_thresholds = (\<lambda>labels pred_probs. Inr (fliplr pred_probs)),
      get_normalized_margin_for_each_label = (\<lambda>labels pred_probs. Inr (map hd (rows pred_probs))),
      get_confidence_weighted_entropy_for_each_label = (\<lambda>labels pred_probs. Inr (map hd (rows pred_probs)))\<rparr>"

text \<open>The array with its columns taken in the order \<open>p\<close>: \<^verbatim>\<open>m[:, p]\<close>.\<close>

definition permute_cols :: "nat list \<Rightarrow> 'a mat \<Rightarrow> 'a mat" where
  "permute_cols p m = Mat (length p) (map (\<lambda>r. map (\<lambda>j. r ! j) p) (rows m))"

text \<open>
  What the self-confidence score comes to for a binary label \<open>l\<close> and the stacked pair
  \<open>[1 - p, p]\<close>: the entry the label selects.
\<close>

definition self_confidence_of :: "int \<Rightarrow> real \<Rightarrow> real" where
  "self_confidence_of l p = (if l = 0 then 1 - p else p)"

section \<open>The prior over label configurations\<close>

text \<open>
  The result of a float division in numpy: a number, or what a division by zero leaves
  (it raises nothing, only warns).
\<close>

datatype npfloat = Fin real | NaN | PosInf | NegInf

definition np_divide :: "real \<Rightarrow> nat \<Rightarrow> npfloat" where
  "np_divide c n =
     (if n \<noteq> 0 then Fin (c / real n)
      else if c = 0 then NaN else if 0 < c then PosInf else NegInf)"

text \<open>
  \<^verbatim>\<open>np.unique(y, axis=0, return_counts=True)\<close>: the distinct rows in lexicographic
  order, and how often each occurs.
\<close>

definition np_unique_rows :: "int mat \<Rightarrow> int list list \<times> nat list" where
  "np_unique_rows y =
     (let unique_labels = sort (remdups (rows y))
      in (unique_labels, map (count_list (rows y)) unique_labels))"

text \<open>\<^verbatim>\<open>itertools.product(xs, repeat=n)\<close>: the last position varies fastest.\<close>

fun product_repeat :: "'a list \<Rightarrow> nat \<Rightarrow> 'a list list" where
  "product_repeat xs 0 = [[]]"
| "product_repeat xs (Suc n) = concat (map (\<lambda>x. map ((#) x) (product_repeat xs n)) xs)"

text \<open>
  \<^verbatim>\<open>np.sum(unique_labels * 2 ** np.arange(K)[::-1], axis=1)\<close> for one row. (The
  64-bit wrap-around of numpy is left out: from K = 63 on the \<open>2 ^ K\<close> configurations
  could not be enumerated anyway.)
\<close>

definition binary_key :: "nat \<Rightarrow> int list \<Rightarrow> int" where
  "binary_key K row = sum_list (map2 (*) row (rev (map (\<lambda>j. 2 ^ j) [0..<K])))"

text \<open>
  \<^verbatim>\<open>np.argsort\<close>: the indices that sort the keys. (Equal keys come in the order of
  their indices here; numpy promises no order for them.)
\<close>

definition argsort :: "int list \<Rightarrow> nat list" where
  "argsort keys = sort_key (\<lambda>i. keys ! i) [0..<length keys]"

text \<open>
  \<^verbatim>\<open>_fix_missing_class_count\<close>. The missing labels are
  \<^verbatim>\<open>list(set(all_configurations) - set(map(tuple, unique_labels)))\<close>; the order in
  which Python iterates over that set is not specified, so it is a parameter: \<open>order\<close>
  rearranges the missing configurations. The counts become floats where zeros are appended.
\<close>

definition fix_missing_class_count ::
  "(int list list \<Rightarrow> int list list) \<Rightarrow> nat \<Rightarrow> int list list \<Rightarrow> nat list \<Rightarrow> real list" where
  "fix_missing_class_count order K unique_labels counts =
     (if length unique_labels < 2 ^ K then
        (let all_configurations = product_repeat [0, 1] K;
             missing_labels = order (filter (\<lambda>c. c \<notin> set unique_labels) all_configurations);
             unique_labels' = unique_labels @ missing_labels;
             counts' = map real counts @ replicate (length missing_labels) 0;
             sorted_ids = argsort (map (binary_key K) unique_labels')
         in map (\<lambda>i. counts' ! i) sorted_ids)
      else map real counts)"

text \<open>\<^verbatim>\<open>multilabel_py\<close>\<close>

definition multilabel_py :: "(int list list \<Rightarrow> int list list) \<Rightarrow> int mat \<Rightarrow> npfloat list" where
  "multilabel_py order y =
     (let N = nrows y; K = ncols y;
          (unique_labels, counts) = np_unique_rows y;
          counts' = fix_missing_class_count order K unique_labels counts
      in map (\<lambda>c. np_divide c N) counts')"

text \<open>
  The index of a configuration as the specification words it: the row read as a binary
  number, first column most significant.
\<close>

fun bin_value :: "int list \<Rightarrow> int" where
  "bin_value [] = 0"
| "bin_value (b # bs) = b * 2 ^ length bs + bin_value bs"

text \<open>The K-bit configurations.\<close>

definition configurations :: "nat \<Rightarrow> int list set" where
  "configurations K = {c. length c = K \<and> set c \<subseteq> {0, 1}}"

text \<open>The same as a test on one row.\<close>

definition is_configuration :: "nat \<Rightarrow> int list \<Rightarrow> bool" where
  "is_configuration K c = (length c = K \<and> list_all (\<lambda>b. b = 0 \<or> b = 1) c)"

section \<open>Properties of the exponential moving average\<close>

lemma map2_fst_same_length: "length v = length R \<Longrightarrow> map2 (\<lambda>x y. x) v R = v"
  by (induction v R rule: list_induct2) auto

lemma map2_ema_update_step:
  "length v = length R \<Longrightarrow>
   map2 (\<lambda>e r. F (g e (r ! j)) r) v R =
   map2 (\<lambda>e r. F e r) (map2 (\<lambda>x e. g e x) (map (\<lambda>r. r ! j) R) v) R"
  by (induction v R rule: list_induct2) auto

lemma foldl_ema_update_cols:
  "length v = length R \<Longrightarrow>
   foldl (ema_update a) v (map (\<lambda>j. map (\<lambda>r. r ! j) R) js) =
   map2 (\<lambda>e r. foldl (\<lambda>avg x. a * x + (1 - a) * avg) e (map (\<lambda>j. r ! j) js)) v R"
proof (induction js arbitrary: v)
  case Nil
  then show ?case by (simp add: map2_fst_same_length)
next
  case (Cons j js)
  let ?g = "\<lambda>avg x. a * x + (1 - a) * avg"
  have len: "length (ema_update a v (map (\<lambda>r. r ! j) R)) = length R"
    using Cons.prems by (simp add: ema_update_def)
  have "foldl (ema_update a) v (map (\<lambda>j. map (\<lambda>r. r ! j) R) (j # js)) =
        foldl (ema_update a) (ema_update a v (map (\<lambda>r. r ! j) R))
          (map (\<lambda>j. map (\<lambda>r. r ! j) R) js)"
    by simp
  also have "\<dots> = map2 (\<lambda>e r. foldl ?g e (map (\<lambda>j. r ! j) js))
                      (ema_update a v (map (\<lambda>r. r ! j) R)) R"
    using Cons.IH[OF len] .
  also have "\<dots> = map2 (\<lambda>e r. foldl ?g (?g e (r ! j)) (map (\<lambda>j. r ! j) js)) v R"
    using map2_ema_update_step[OF Cons.prems, of "\<lambda>e r. foldl ?g e (map (\<lambda>j. r ! j) js)" ?g j]
    by (simp add: ema_update_def)
  finally show ?case by simp
qed

lemma map_nth_tl: "map (\<lambda>j. r ! j) [1..<length r] = tl r"
proof (cases r)
  case Nil
  then show ?thesis by simp
next
  case (Cons x xs)
  have "[1..<length r] = map Suc [0..<length xs]"
    using Cons by (simp add: map_Suc_upt)
  then have "map (\<lambda>j. r ! j) [1..<length r] = map (\<lambda>j. xs ! j) [0..<length xs]"
    using Cons by (simp add: comp_def)
  then show ?thesis using Cons by (simp add: map_nth)
qed

lemma map2_map_left_same: "map2 F (map f R) R = map (\<lambda>r. F (f r) r) R"
  by (induction R) auto

lemma transposed_rows_nonempty:
  "1 \<le> ncols m \<Longrightarrow>
   rows (transpose_mat m) =
     map (\<lambda>r. r ! 0) (rows m) # map (\<lambda>j. map (\<lambda>r. r ! j) (rows m)) [1..<ncols m]"
  by (simp add: transpose_mat_def col_def upt_conv_Cons[of 0] cong: map_cong)

text \<open>
  On a matrix with at least one column, sorted along the rows, the column-wise loop of the
  source computes the row-wise fold of the specification.
\<close>

lemma ema_rows:
  assumes wf: "wf_mat s" and K: "1 \<le> ncols s" and ax: "axis = 1 \<or> axis = -1"
    and a: "0 \<le> effective_alpha (ncols s) alpha" "effective_alpha (ncols s) alpha \<le> 1"
  shows "exponential_moving_average s alpha axis =
         Inr (map (ema_of_row (effective_alpha (ncols s) alpha)) (rows s))"
proof -
  let ?a = "effective_alpha (ncols s) alpha"
  let ?g = "\<lambda>avg x. ?a * x + (1 - ?a) * avg"
  let ?R = "map rev (map sort (rows s))"
  let ?M = "fliplr (Mat (ncols s) (map sort (rows s)))"
  have rowsM: "rows ?M = ?R" and colsM: "ncols ?M = ncols s"
    by (simp_all add: fliplr_def)
  have len: "\<And>r. r \<in> set ?R \<Longrightarrow> length r = ncols s"
    using wf by (auto simp: wf_mat_def list_all_iff)
  have T: "rows (transpose_mat ?M) =
      map (\<lambda>r. r ! 0) ?R # map (\<lambda>j. map (\<lambda>r. r ! j) ?R) [1..<ncols s]"
    using transposed_rows_nonempty[of ?M] K rowsM colsM by simp
  have "foldl (ema_update ?a) (map (\<lambda>r. r ! 0) ?R) (map (\<lambda>j. map (\<lambda>r. r ! j) ?R) [1..<ncols s])
        = map2 (\<lambda>e r. foldl ?g e (map (\<lambda>j. r ! j) [1..<ncols s])) (map (\<lambda>r. r ! 0) ?R) ?R"
    by (rule foldl_ema_update_cols) simp
  also have "\<dots> = map (\<lambda>r. foldl ?g (r ! 0) (map (\<lambda>j. r ! j) [1..<ncols s])) ?R"
    by (rule map2_map_left_same)
  also have "\<dots> = map (\<lambda>r. foldl ?g (hd r) (tl r)) ?R"
  proof (rule map_cong[OF refl])
    fix r assume r: "r \<in> set ?R"
    then have l: "length r = ncols s" by (rule len)
    then have "r \<noteq> []" using K by auto
    then have "r ! 0 = hd r" by (simp add: hd_conv_nth)
    moreover have "map (\<lambda>j. r ! j) [1..<ncols s] = tl r"
      using map_nth_tl[of r] l by simp
    ultimately show "foldl ?g (r ! 0) (map (\<lambda>j. r ! j) [1..<ncols s]) = foldl ?g (hd r) (tl r)"
      by simp
  qed
  also have "\<dots> = map (ema_of_row ?a) (rows s)"
    by (simp add: ema_of_row_def comp_def Let_def)
  finally have F: "foldl (ema_update ?a) (map (\<lambda>r. r ! 0) ?R)
      (map (\<lambda>j. map (\<lambda>r. r ! j) ?R) [1..<ncols s]) = map (ema_of_row ?a) (rows s)" .
  have S: "np_sort s axis = Inr (Mat (ncols s) (map sort (rows s)))"
    using ax by (auto simp: np_sort_def)
  show ?thesis
    unfolding exponential_moving_average_def Let_def S sum.case
    using a T F by (simp add: effective_alpha_def)
qed

lemma effective_alpha_in_range:
  "1 \<le> K \<Longrightarrow> alpha_supplied_in_range alpha \<Longrightarrow>
   0 \<le> effective_alpha K alpha \<and> effective_alpha K alpha \<le> 1"
  by (cases alpha) (simp_all add: effective_alpha_def alpha_supplied_in_range_def)

lemma np_sort_valid_axis:
  "axis \<in> {-2, -1, 0, 1} \<Longrightarrow> \<exists>srt. np_sort s axis = Inr srt"
  by (auto simp: np_sort_def)

text \<open>
  Claim C2, as stated: for every N\<times>K score matrix and every alpha in [0,1] the function
  returns the per-row running average. It does not when K = 0: the transposed array has no
  row, and \<^verbatim>\<open>s_T[0]\<close> raises \<^verbatim>\<open>IndexError\<close>.
\<close>

theorem ema_no_column_counterexample:
  "wf_mat (Mat 0 [[]]) \<and> alpha_supplied_in_range (Some (1/2)) \<and>
   exponential_moving_average (Mat 0 [[]]) (Some (1/2)) 1 = Inl (IndexError [])"
  by (simp add: wf_mat_def alpha_supplied_in_range_def exponential_moving_average_def
      np_sort_def fliplr_def transpose_mat_def nrows_def)

text \<open>
  Claim C2, amended: for every N\<times>K score matrix with K \<ge> 1 and every alpha that is
  omitted or lies in [0,1], \<open>exponential_moving_average\<close> (sorting along the class
  axis) returns the length-N vector whose entry for a row is the specification's reduction
  of that row: scores sorted in descending order, running average started at the largest
  score and updated by \<open>alpha * score_i + (1 - alpha) * running_avg\<close> for the ranks
  2..K, with alpha = 2/(K+1) when the caller supplies none. In particular
  \<open>exponential_moving_average [[0.1, 0.2, 0.3]] (alpha = 0.5) = [0.175]\<close>.
\<close>

theorem ema_refines_spec:
  assumes "wf_mat s" and "1 \<le> ncols s" and "alpha_supplied_in_range alpha"
    and "axis = 1 \<or> axis = -1"
  shows "exponential_moving_average s alpha axis =
           Inr (map (ema_of_row (effective_alpha (ncols s) alpha)) (rows s))
         \<and> length (map (ema_of_row (effective_alpha (ncols s) alpha)) (rows s)) = nrows s
         \<and> effective_alpha (ncols s) None = 2 / (real (ncols s) + 1)
         \<and> exponential_moving_average (Mat 3 [[1/10, 2/10, 3/10]]) (Some (5/10)) 1
             = Inr [175/1000]"
proof -
  have "exponential_moving_average s alpha axis =
          Inr (map (ema_of_row (effective_alpha (ncols s) alpha)) (rows s))"
    using ema_rows[OF assms(1,2,4)] effective_alpha_in_range[OF assms(2,3)] by simp
  moreover have "exponential_moving_average (Mat 3 [[1/10, 2/10, 3/10]]) (Some (5/10)) 1
      = Inr [175/1000]"
    by (simp add: exponential_moving_average_def np_sort_def fliplr_def transpose_mat_def
        nrows_def col_def ema_update_def upt_rec)
  ultimately show ?thesis
    by (simp add: nrows_def effective_alpha_def)
qed

theorem ema_refines_spec_witness:
  "exponential_moving_average (Mat 2 [[4/10, 9/10], [1/10, 1/10]]) None 1
     = Inr [17/30, 1/10]"
proof -
  have "wf_mat (Mat 2 [[4/10, 9/10], [1/10, 1/10::real]])"
    by (simp add: wf_mat_def)
  from ema_refines_spec[OF this, of None 1]
  show ?thesis
    by (simp add: alpha_supplied_in_range_def effective_alpha_def ema_of_row_def)
qed

text \<open>
  Claim C5: for every 2-dimensional score matrix and every supplied alpha below 0 or above 1,
  \<open>exponential_moving_average\<close> raises the \<^verbatim>\<open>ValueError\<close> of its range check,
  whatever the (valid) axis; it returns no result.
\<close>

theorem ema_alpha_out_of_range:
  assumes "a < 0 \<or> 1 < a" and "axis \<in> {-2, -1, 0, 1}"
  shows "exponential_moving_average s (Some a) axis =
         Inl (ValueError [Lit ''alpha must be in the interval [0, 1], got '', Num a])"
proof -
  obtain srt where "np_sort s axis = Inr srt"
    using np_sort_valid_axis[OF assms(2)] by blast
  then show ?thesis
    using assms(1) by (auto simp: exponential_moving_average_def Let_def)
qed

theorem ema_alpha_out_of_range_witness:
  "exponential_moving_average (Mat 3 [[1/10, 2/10, 3/10]]) (Some (3/2)) 1 =
     Inl (ValueError [Lit ''alpha must be in the interval [0, 1], got '', Num (3/2)])
   \<and> exponential_moving_average (Mat 0 []) (Some (-1)) 0 =
     Inl (ValueError [Lit ''alpha must be in the interval [0, 1], got '', Num (-1)])"
  using ema_alpha_out_of_range[of "3/2" 1 "Mat 3 [[1/10, 2/10, 3/10]]"]
        ema_alpha_out_of_range[of "-1" 0 "Mat 0 []"]
  by simp




section \<open>Properties of \<open>ClassLabelScorer\<close>\<close>













section \<open>Properties of \<open>Aggregator\<close>\<close>

text \<open>
  Claim C8, as stated: a non-callable \<^verbatim>\<open>method\<close> fails with a type error, and a
  \<^verbatim>\<open>scores\<close> that is not a 2-dimensional array fails with an error that shows the
  offending type and, if available, the shape. The first check is an \<^verbatim>\<open>assert\<close>, so
  the exception is an \<^verbatim>\<open>AssertionError\<close>; and for an object without a shape, such as
  a list, building the message fails with \<^verbatim>\<open>AttributeError\<close>.
\<close>

theorem aggregator_validation_counterexample:
  "Aggregator_init (NotCallable ''int'') Map.empty =
     Inl (AssertionError [Lit ''Expected callable method, got '', Lit ''<class 'int'>''])
   \<and> Aggregator_init (NotCallable ''int'') Map.empty \<noteq>
     Inl (TypeError [Lit ''Expected callable method, got '', Lit ''<class 'int'>''])
   \<and> Aggregator_call default_aggregator (OtherObj ''list'' None) Map.empty =
     Inl (AttributeError [Lit (quoted ''list''), Lit '' object has no attribute '',
                         Lit (quoted ''shape'')])"
  by (simp add: Aggregator_init_def validate_method_def type_repr_def quoted_def
      Aggregator_call_def validate_scores_def)

text \<open>
  Claim C8, amended: constructing an \<open>Aggregator\<close> (directly, or through
  \<open>MultilabelScorer\<close>) with a non-callable \<^verbatim>\<open>method\<close> fails with an
  \<^verbatim>\<open>AssertionError\<close> whose message shows the type received; calling an
  \<open>Aggregator\<close> on an array that is not 2-dimensional, or on another object that has a
  shape, fails with a \<^verbatim>\<open>ValueError\<close> whose message shows the type and the shape; a
  2-dimensional array is passed on to the reduction.
\<close>

theorem aggregator_validation:
  "Aggregator_init (NotCallable ty) kw =
     Inl (AssertionError [Lit ''Expected callable method, got '', Lit (type_repr ty)])
   \<and> MultilabelScorer_init scorer (NoAggregator (NotCallable ty)) flag =
     Inl (AssertionError [Lit ''Expected callable method, got '', Lit (type_repr ty)])
   \<and> Aggregator_init (Callable f) kw = Inr \<lparr>agg_method = f, agg_kwargs = kw\<rparr>
   \<and> (length sh \<noteq> 2 \<longrightarrow>
        Aggregator_call agg (ArrayN sh) ckw =
          Inl (ValueError [Lit ''Expected 2D array for scores, got '',
                           Lit (type_repr ''numpy.ndarray''), Lit '' with shape '',
                           Lit (str_shape sh)]))
   \<and> Aggregator_call agg (OtherObj ty (Some sh)) ckw =
        Inl (ValueError [Lit ''Expected 2D array for scores, got '', Lit (type_repr ty),
                         Lit '' with shape '', Lit (str_shape sh)])
   \<and> Aggregator_call agg (Array2 m) ckw = agg_method agg m (merge_kwargs agg ckw)"
  by (simp add: Aggregator_init_def validate_method_def MultilabelScorer_init_def
      Aggregator_call_def validate_scores_def scores_message_def)

theorem aggregator_validation_witness:
  "Aggregator_init (NotCallable ''str'') Map.empty =
     Inl (AssertionError [Lit ''Expected callable method, got '', Lit ''<class 'str'>''])
   \<and> Aggregator_call default_aggregator (ArrayN [3]) Map.empty =
     Inl (ValueError [Lit ''Expected 2D array for scores, got '', Lit ''<class 'numpy.ndarray'>'',
                      Lit '' with shape '', Lit ''(3,)''])
   \<and> Aggregator_call default_aggregator (OtherObj ''pandas.core.frame.DataFrame'' (Some [2, 13])) Map.empty =
     Inl (ValueError [Lit ''Expected 2D array for scores, got '',
                      Lit ''<class 'pandas.core.frame.DataFrame'>'',
                      Lit '' with shape '', Lit ''(2, 13)''])"
proof -
  have s: "str_shape [3] = ''(3,)''" "str_shape [2, 13] = ''(2, 13)''"
    by (simp_all add: str_shape_def digit_char_def)
  have t: "type_repr ''str'' = ''<class 'str'>''"
    "type_repr ''numpy.ndarray'' = ''<class 'numpy.ndarray'>''"
    "type_repr ''pandas.core.frame.DataFrame'' = ''<class 'pandas.core.frame.DataFrame'>''"
    by (simp_all add: type_repr_def quoted_def)
  show ?thesis
    using aggregator_validation[of "''str''" Map.empty, where sh = "[3]" and agg = default_aggregator and ckw = Map.empty]
          aggregator_validation[of "''pandas.core.frame.DataFrame''" Map.empty, where sh = "[2, 13]" and agg = default_aggregator and ckw = Map.empty]
    by (simp add: s t)
qed

text \<open>
  Claim C9: with \<^verbatim>\<open>adjust_pred_probs=True\<close> among the keywords, for every label vector
  and every probability matrix, the member \<open>CONFIDENCE_WEIGHTED_ENTROPY\<close> raises a
  \<^verbatim>\<open>ValueError\<close>, whatever the scoring functions and the adjuster are (none of them
  is consulted); the two other members first replace the probability matrix by the
  adjuster's output and score that.
\<close>

theorem adjust_pred_probs_entropy_unsupported:
  assumes "kw ''adjust_pred_probs'' = Some (PBool True)"
  shows "ClassLabelScorer_call ext CONFIDENCE_WEIGHTED_ENTROPY labels pred_probs kw =
           Inl (ValueError [Lit ''adjust_pred_probs is not currently supported for '',
                            Lit ''ClassLabelScorer.CONFIDENCE_WEIGHTED_ENTROPY'', Lit ''.''])
         \<and> ClassLabelScorer_call ext SELF_CONFIDENCE labels pred_probs kw =
           (case subtract_confident_thresholds ext labels pred_probs of
              Inl e \<Rightarrow> Inl e
            | Inr adjusted \<Rightarrow> get_self_confidence_for_each_label labels adjusted)
         \<and> ClassLabelScorer_call ext NORMALIZED_MARGIN labels pred_probs kw =
           (case subtract_confident_thresholds ext labels pred_probs of
              Inl e \<Rightarrow> Inl e
            | Inr adjusted \<Rightarrow> get_normalized_margin_for_each_label ext labels adjusted)"
  using assms
  by (simp add: ClassLabelScorer_call_def adjust_pred_probs_def ClassLabelScorer_str_def
      member_name_def ClassLabelScorer_fn_def split: sum.splits)

theorem adjust_pred_probs_entropy_unsupported_witness:
  "ClassLabelScorer_call sample_externals CONFIDENCE_WEIGHTED_ENTROPY [0, 1]
       (Mat 2 [[9/10, 1/10], [2/10, 8/10]]) [''adjust_pred_probs'' \<mapsto> PBool True] =
     Inl (ValueError [Lit ''adjust_pred_probs is not currently supported for '',
                      Lit ''ClassLabelScorer.CONFIDENCE_WEIGHTED_ENTROPY'', Lit ''.''])
   \<and> ClassLabelScorer_call sample_externals SELF_CONFIDENCE [0, 1]
       (Mat 2 [[9/10, 1/10], [2/10, 8/10]]) [''adjust_pred_probs'' \<mapsto> PBool True] =
     Inr [1/10, 2/10]
   \<and> ClassLabelScorer_call sample_externals NORMALIZED_MARGIN [0, 1]
       (Mat 2 [[9/10, 1/10], [2/10, 8/10]]) [''adjust_pred_probs'' \<mapsto> PBool True] =
     Inr [1/10, 8/10]"
  using adjust_pred_probs_entropy_unsupported[of "[''adjust_pred_probs'' \<mapsto> PBool True]"
          sample_externals "[0, 1]" "Mat 2 [[9/10, 1/10], [2/10, 8/10]]"]
  by (simp add: sample_externals_def fliplr_def get_self_confidence_for_each_label_def
      nrows_def py_index_def upt_rec)

lemma default_aggregator_merge:
  "merge_kwargs default_aggregator kw = kw(''axis'' \<mapsto> PInt 1, ''alpha'' \<mapsto> PFloat (8/10))"
  by (simp add: merge_kwargs_def default_aggregator_def)

lemma default_aggregator_method: "agg_method default_aggregator = ema_reduction"
  by (simp add: default_aggregator_def)

text \<open>
  Claim C10: the reduction receives \<^verbatim>\<open>{**kwargs, **self.kwargs}\<close> with
  \<^verbatim>\<open>kwargs["axis"] = 1\<close>, so a key bound at construction wins over the call-time value,
  \<^verbatim>\<open>axis\<close> included. The default aggregator binds \<^verbatim>\<open>alpha=0.8\<close>: an alpha passed at
  call time changes nothing, in the aggregator and in the default \<open>MultilabelScorer\<close>,
  and the reduction always runs with alpha 0.8, never with the default \<open>2/(K+1)\<close>.
\<close>

theorem bound_kwargs_win:
  "(\<forall>k. merge_kwargs self kw k =
        (case agg_kwargs self k of
           Some v \<Rightarrow> Some v
         | None \<Rightarrow> (if k = ''axis'' then Some (PInt 1) else kw k)))
   \<and> Aggregator_call self (Array2 m) kw = agg_method self m (merge_kwargs self kw)
   \<and> aggregator default_scorer = default_aggregator
   \<and> agg_kwargs default_aggregator = [''alpha'' \<mapsto> PFloat (8/10)]
   \<and> merge_kwargs default_aggregator (kw(''alpha'' \<mapsto> a)) = merge_kwargs default_aggregator kw
   \<and> Aggregator_call default_aggregator (Array2 m) (kw(''alpha'' \<mapsto> a)) =
       Aggregator_call default_aggregator (Array2 m) kw
   \<and> (''s'' \<notin> dom kw \<longrightarrow>
        Aggregator_call default_aggregator (Array2 m) kw =
          exponential_moving_average m (Some (8/10)) 1)
   \<and> MultilabelScorer_call ext default_scorer labels pred_probs bkw (kw(''alpha'' \<mapsto> a)) =
       MultilabelScorer_call ext default_scorer labels pred_probs bkw kw"
proof -
  have 1: "\<forall>k. merge_kwargs self kw k =
        (case agg_kwargs self k of
           Some v \<Rightarrow> Some v
         | None \<Rightarrow> (if k = ''axis'' then Some (PInt 1) else kw k))"
    by (simp add: merge_kwargs_def map_add_def split: option.splits)
  have 2: "merge_kwargs default_aggregator (kw(''alpha'' \<mapsto> a)) = merge_kwargs default_aggregator kw"
    by (simp add: default_aggregator_merge fun_upd_twist)
  have 3: "\<And>m. Aggregator_call default_aggregator (Array2 m) (kw(''alpha'' \<mapsto> a)) =
       Aggregator_call default_aggregator (Array2 m) kw"
    by (simp add: Aggregator_call_def validate_scores_def 2)
  have 4: "''s'' \<notin> dom kw \<longrightarrow>
        Aggregator_call default_aggregator (Array2 m) kw =
          exponential_moving_average m (Some (8/10)) 1"
    by (auto simp: Aggregator_call_def validate_scores_def default_aggregator_merge
        default_aggregator_method ema_reduction_def)
  have 5: "MultilabelScorer_call ext default_scorer labels pred_probs bkw (kw(''alpha'' \<mapsto> a)) =
       MultilabelScorer_call ext default_scorer labels pred_probs bkw kw"
    by (simp add: MultilabelScorer_call_def default_scorer_def 3 Let_def
        split: sum.splits)
  show ?thesis
    using 1 2 3 4 5
    by (simp add: Aggregator_call_def validate_scores_def default_scorer_def default_aggregator_def)
qed

theorem bound_kwargs_win_witness:
  "Aggregator_call default_aggregator (Array2 (Mat 3 [[4/10, 9/10, 9/10]]))
      [''alpha'' \<mapsto> PFloat (1/10)] = Inr [5/10]
   \<and> ema_reduction (Mat 3 [[4/10, 9/10, 9/10]]) [''alpha'' \<mapsto> PFloat (1/10)] = Inr [85/100]
   \<and> merge_kwargs \<lparr>agg_method = np_min, agg_kwargs = [''axis'' \<mapsto> PInt 0]\<rparr> Map.empty ''axis''
       = Some (PInt 0)"
proof -
  let ?M = "Mat 3 [[4/10, 9/10, 9/10 :: real]]"
  have e: "exponential_moving_average ?M (Some (8/10)) 1 = Inr [5/10]"
    "ema_reduction ?M [''alpha'' \<mapsto> PFloat (1/10)] = Inr [85/100]"
    by (simp_all add: ema_reduction_def exponential_moving_average_def np_sort_def fliplr_def
        transpose_mat_def nrows_def col_def ema_update_def upt_rec)
  note T = bound_kwargs_win[where self = default_aggregator and kw = Map.empty
      and a = "PFloat (1/10)" and m = ?M and ext = sample_externals and labels = "Mat 0 []"
      and pred_probs = "Mat 0 []" and bkw = None]
  from T have A: "Aggregator_call default_aggregator (Array2 ?M) [''alpha'' \<mapsto> PFloat (1/10)] =
      Aggregator_call default_aggregator (Array2 ?M) Map.empty"
    by blast
  from T have "''s'' \<notin> dom (Map.empty :: kwargs) \<longrightarrow>
      Aggregator_call default_aggregator (Array2 ?M) Map.empty =
      exponential_moving_average ?M (Some (8/10)) 1"
    by blast
  then have B: "Aggregator_call default_aggregator (Array2 ?M) Map.empty =
      exponential_moving_average ?M (Some (8/10)) 1"
    by simp
  note T' = bound_kwargs_win[where self = "\<lparr>agg_method = np_min, agg_kwargs = [''axis'' \<mapsto> PInt 0]\<rparr>"
      and kw = Map.empty and a = "PFloat (1/10)" and m = ?M and ext = sample_externals
      and labels = "Mat 0 []" and pred_probs = "Mat 0 []" and bkw = None]
  from T' have "\<forall>k. merge_kwargs \<lparr>agg_method = np_min, agg_kwargs = [''axis'' \<mapsto> PInt 0]\<rparr>
      Map.empty k =
        (case agg_kwargs \<lparr>agg_method = np_min, agg_kwargs = [''axis'' \<mapsto> PInt 0]\<rparr> k of
           Some v \<Rightarrow> Some v
         | None \<Rightarrow> (if k = ''axis'' then Some (PInt 1) else Map.empty k))"
    by blast
  then have C: "merge_kwargs \<lparr>agg_method = np_min, agg_kwargs = [''axis'' \<mapsto> PInt 0]\<rparr>
      Map.empty ''axis'' = Some (PInt 0)"
    by simp
  show ?thesis
    using A B C e by simp
qed

section \<open>Properties of \<open>MultilabelScorer\<close>\<close>

lemma default_objects:
  "Aggregator_init (Callable ema_reduction) [''alpha'' \<mapsto> PFloat (8/10)] = Inr default_aggregator"
  "MultilabelScorer_init SELF_CONFIDENCE (AnAggregator default_aggregator) True = Inr default_scorer"
  by (simp_all add: Aggregator_init_def validate_method_def default_aggregator_def
      MultilabelScorer_init_def default_scorer_def)

text \<open>
  Claim C1: on \<^verbatim>\<open>labels = [[0,1,0],[1,0,1]]\<close> and
  \<^verbatim>\<open>pred_probs = [[0.1,0.9,0.1],[0.4,0.1,0.9]]\<close> the default \<open>MultilabelScorer()\<close>
  returns \<^verbatim>\<open>[0.9, 0.5]\<close>, and the scorer whose aggregator is the plain minimum
  \<^verbatim>\<open>np.min\<close> returns \<^verbatim>\<open>[0.9, 0.4]\<close>.
\<close>

theorem multilabel_scorer_examples:
  "Aggregator_init (Callable ema_reduction) [''alpha'' \<mapsto> PFloat (8/10)] = Inr default_aggregator
   \<and> MultilabelScorer_init SELF_CONFIDENCE (AnAggregator default_aggregator) True = Inr default_scorer
   \<and> MultilabelScorer_call ext default_scorer
       (Mat 3 [[0, 1, 0], [1, 0, 1]])
       (Mat 3 [[1/10, 9/10, 1/10], [4/10, 1/10, 9/10]]) None Map.empty
     = Inr [9/10, 5/10]
   \<and> MultilabelScorer_init SELF_CONFIDENCE (NoAggregator (Callable np_min)) True = Inr min_scorer
   \<and> MultilabelScorer_call ext min_scorer
       (Mat 3 [[0, 1, 0], [1, 0, 1]])
       (Mat 3 [[1/10, 9/10, 1/10], [4/10, 1/10, 9/10]]) None Map.empty
     = Inr [9/10, 4/10]"
proof -
  have scores: "score_columns ext SELF_CONFIDENCE Map.empty
      (zip (rows (transpose_mat (Mat 3 [[0, 1, 0], [1, 0, 1]])))
           (rows (transpose_mat (Mat 3 [[1/10, 9/10, 1/10], [4/10, 1/10, 9/10]]))))
      0 (np_zeros 2 3)
    = Inr (Mat 3 [[9/10, 9/10, 9/10], [4/10, 9/10, 9/10]])"
    by (simp add: np_zeros_def transpose_mat_def nrows_def col_def upt_rec call_base_scorer_def
        ClassLabelScorer_call_def adjust_pred_probs_def ClassLabelScorer_fn_def
        get_self_confidence_for_each_label_def stack_complement_def py_index_def set_column_def
        numeral_2_eq_2 numeral_3_eq_3)
  have valid: "validate_labels_and_pred_probs (Mat 3 [[0, 1, 0], [1, 0, 1]])
      (Mat 3 [[1/10, 9/10, 1/10], [4/10, 1/10, 9/10]]) = Inr ()"
    by (simp add: validate_labels_and_pred_probs_def is_multilabel_def nrows_def)
  have ema: "Aggregator_call default_aggregator
      (Array2 (Mat 3 [[9/10, 9/10, 9/10], [4/10, 9/10, 9/10]])) Map.empty = Inr [9/10, 5/10]"
    by (simp add: Aggregator_call_def validate_scores_def default_aggregator_def merge_kwargs_def
        ema_reduction_def exponential_moving_average_def np_sort_def fliplr_def transpose_mat_def
        nrows_def col_def ema_update_def upt_rec)
  have mn: "Aggregator_call \<lparr>agg_method = np_min, agg_kwargs = Map.empty\<rparr>
      (Array2 (Mat 3 [[9/10, 9/10, 9/10], [4/10, 9/10, 9/10]])) Map.empty = Inr [9/10, 4/10]"
    by (simp add: Aggregator_call_def validate_scores_def merge_kwargs_def np_min_def)
  have n: "nrows (Mat 3 [[0, 1, 0], [1, 0, 1::int]]) = 2"
    by (simp add: nrows_def)
  have c3: "MultilabelScorer_call ext default_scorer
       (Mat 3 [[0, 1, 0], [1, 0, 1]])
       (Mat 3 [[1/10, 9/10, 1/10], [4/10, 1/10, 9/10]]) None Map.empty
     = Inr [9/10, 5/10]"
    using scores valid ema
    by (simp add: MultilabelScorer_call_def default_scorer_def n)
  have c4: "MultilabelScorer_init SELF_CONFIDENCE (NoAggregator (Callable np_min)) True = Inr min_scorer"
    by (simp add: MultilabelScorer_init_def Aggregator_init_def validate_method_def min_scorer_def)
  have c5: "MultilabelScorer_call ext min_scorer
       (Mat 3 [[0, 1, 0], [1, 0, 1]])
       (Mat 3 [[1/10, 9/10, 1/10], [4/10, 1/10, 9/10]]) None Map.empty
     = Inr [9/10, 4/10]"
    using scores valid mn
    by (simp add: MultilabelScorer_call_def min_scorer_def n)
  show ?thesis
    using default_objects c3 c4 c5 by blast
qed

subsection \<open>Column order\<close>

lemma collect_all_Inr: "collect (map Inr xs) = Inr xs"
  by (induction xs) auto

lemma py_index_binary:
  "l = 0 \<or> l = 1 \<Longrightarrow> py_index [1 - p, p] l = Inr (self_confidence_of l p)"
  by (auto simp: py_index_def self_confidence_of_def)

lemma self_confidence_binary_column:
  assumes len: "length ls = length ps" and bin: "\<forall>l\<in>set ls. l = 0 \<or> l = 1"
  shows "get_self_confidence_for_each_label ls (stack_complement ps) =
         Inr (map2 self_confidence_of ls ps)"
proof -
  have "map (\<lambda>(i, l). if i < nrows (stack_complement ps)
                        then py_index (rows (stack_complement ps) ! i) l
                        else Inl (IndexError []))
            (zip [0..<length ls] ls)
        = map Inr (map2 self_confidence_of ls ps)"
  proof (rule nth_equalityI)
    show "length (map (\<lambda>(i, l). if i < nrows (stack_complement ps)
                        then py_index (rows (stack_complement ps) ! i) l
                        else Inl (IndexError []))
            (zip [0..<length ls] ls)) = length (map Inr (map2 self_confidence_of ls ps))"
      using len by simp
  next
    fix i
    assume "i < length (map (\<lambda>(i, l). if i < nrows (stack_complement ps)
                        then py_index (rows (stack_complement ps) ! i) l
                        else Inl (IndexError []))
            (zip [0..<length ls] ls))"
    then have i: "i < length ls" by simp
    then have "ls ! i = 0 \<or> ls ! i = 1" using bin by auto
    then show "map (\<lambda>(i, l). if i < nrows (stack_complement ps)
                        then py_index (rows (stack_complement ps) ! i) l
                        else Inl (IndexError []))
            (zip [0..<length ls] ls) ! i = map Inr (map2 self_confidence_of ls ps) ! i"
      using i len by (simp add: stack_complement_def nrows_def py_index_binary)
  qed
  then show ?thesis
    unfolding get_self_confidence_for_each_label_def by (simp only: collect_all_Inr)
qed

lemma call_default_scorer_column:
  assumes "length ls = length ps" and "\<forall>l\<in>set ls. l = 0 \<or> l = 1"
  shows "call_base_scorer ext SELF_CONFIDENCE ls (stack_complement ps) Map.empty =
         Inr (map2 self_confidence_of ls ps)"
  using self_confidence_binary_column[OF assms]
  by (simp add: call_base_scorer_def ClassLabelScorer_call_def adjust_pred_probs_def
      ClassLabelScorer_fn_def)

lemma set_column_full:
  "length v = length R \<Longrightarrow>
   set_column (Mat K R) i v = Inr (Mat K (map2 (\<lambda>r x. r[i := x]) R v))"
  by (simp add: set_column_def nrows_def)

lemma score_columns_default:
  assumes "\<forall>c\<in>set cs. length (fst c) = N \<and> length (snd c) = N \<and> (\<forall>l\<in>set (fst c). l = 0 \<or> l = 1)"
    and "length R = N" and "\<forall>r\<in>set R. length r = K" and "i + length cs \<le> K"
  shows "\<exists>R'. score_columns ext SELF_CONFIDENCE Map.empty cs i (Mat K R) = Inr (Mat K R')
          \<and> length R' = N
          \<and> (\<forall>n<N. length (R' ! n) = K
                \<and> (\<forall>j<K. R' ! n ! j =
                      (if i \<le> j \<and> j < i + length cs
                       then self_confidence_of (fst (cs ! (j - i)) ! n) (snd (cs ! (j - i)) ! n)
                       else R ! n ! j)))"
  using assms
proof (induction cs arbitrary: i R)
  case Nil
  then show ?case by auto
next
  case (Cons c cs)
  obtain ls ps where c: "c = (ls, ps)" by (cases c)
  have ls: "length ls = N" and ps: "length ps = N" and bin: "\<forall>l\<in>set ls. l = 0 \<or> l = 1"
    using Cons.prems(1) c by auto
  let ?v = "map2 self_confidence_of ls ps"
  let ?R1 = "map2 (\<lambda>r x. r[i := x]) R ?v"
  have v: "length ?v = N" using ls ps by simp
  have call: "call_base_scorer ext SELF_CONFIDENCE ls (stack_complement ps) Map.empty = Inr ?v"
    using call_default_scorer_column[of ls ps ext] ls ps bin by simp
  have setc: "set_column (Mat K R) i ?v = Inr (Mat K ?R1)"
    using set_column_full[of ?v R K i] v Cons.prems(2) by simp
  have R1len: "length ?R1 = N" using v Cons.prems(2) by simp
  have R1rows: "\<forall>r\<in>set ?R1. length r = K"
    using Cons.prems(3) by (auto simp: set_zip)
  have i: "i < K" using Cons.prems(4) by simp
  have R1nth: "\<And>n j. n < N \<Longrightarrow> ?R1 ! n ! j = (if j = i then ?v ! n else R ! n ! j)"
    using v Cons.prems(2,3) ls ps i by (auto simp: nth_list_update)
  from Cons.IH[of ?R1 "Suc i"] Cons.prems(1,4) R1len R1rows
  obtain R' where R': "score_columns ext SELF_CONFIDENCE Map.empty cs (Suc i) (Mat K ?R1) = Inr (Mat K R')"
      "length R' = N"
      "\<forall>n<N. length (R' ! n) = K
                \<and> (\<forall>j<K. R' ! n ! j =
                      (if Suc i \<le> j \<and> j < Suc i + length cs
                       then self_confidence_of (fst (cs ! (j - Suc i)) ! n) (snd (cs ! (j - Suc i)) ! n)
                       else ?R1 ! n ! j))"
    by auto
  have run: "score_columns ext SELF_CONFIDENCE Map.empty (c # cs) i (Mat K R) = Inr (Mat K R')"
    using call setc R'(1) c by simp
  have nth: "\<forall>n<N. length (R' ! n) = K
                \<and> (\<forall>j<K. R' ! n ! j =
                      (if i \<le> j \<and> j < i + length (c # cs)
                       then self_confidence_of (fst ((c # cs) ! (j - i)) ! n) (snd ((c # cs) ! (j - i)) ! n)
                       else R ! n ! j))"
  proof (intro allI impI conjI)
    fix n assume n: "n < N"
    show "length (R' ! n) = K" using R'(3) n by simp
  next
    fix n j assume n: "n < N" and j: "j < K"
    have A: "R' ! n ! j = (if Suc i \<le> j \<and> j < Suc i + length cs
                       then self_confidence_of (fst (cs ! (j - Suc i)) ! n) (snd (cs ! (j - Suc i)) ! n)
                       else ?R1 ! n ! j)"
      using R'(3) n j by simp
    show "R' ! n ! j =
          (if i \<le> j \<and> j < i + length (c # cs)
           then self_confidence_of (fst ((c # cs) ! (j - i)) ! n) (snd ((c # cs) ! (j - i)) ! n)
           else R ! n ! j)"
    proof (cases "j = i")
      case True
      then show ?thesis
        using A R1nth[OF n, of j] i c n ls ps by simp
    next
      case False
      show ?thesis
      proof (cases "Suc i \<le> j \<and> j < Suc i + length cs")
        case True
        then have "(c # cs) ! (j - i) = cs ! (j - Suc i)"
          by (simp add: nth_Cons')
        then show ?thesis using A True by simp
      next
        case False2: False
        then show ?thesis
          using A R1nth[OF n, of j] False by auto
      qed
    qed
  qed
  show ?case using run R'(2) nth by blast
qed

lemma default_score_matrix:
  assumes wfL: "wf_mat L" and wfP: "wf_mat P" and KL: "ncols L = K" and KP: "ncols P = K"
    and NL: "nrows L = N" and NP: "nrows P = N" and ml: "is_multilabel L"
  shows "score_columns ext SELF_CONFIDENCE Map.empty
           (zip (rows (transpose_mat L)) (rows (transpose_mat P))) 0 (np_zeros N K)
         = Inr (Mat K (map2 (map2 self_confidence_of) (rows L) (rows P)))"
proof -
  define cs where "cs = zip (rows (transpose_mat L)) (rows (transpose_mat P))"
  define Z where "Z = replicate N (replicate K (0::real))"
  have lenL: "\<And>r. r \<in> set (rows L) \<Longrightarrow> length r = K"
    using wfL KL by (auto simp: wf_mat_def list_all_iff)
  have lenP: "\<And>r. r \<in> set (rows P) \<Longrightarrow> length r = K"
    using wfP KP by (auto simp: wf_mat_def list_all_iff)
  have binL: "\<And>r x. r \<in> set (rows L) \<Longrightarrow> x \<in> set r \<Longrightarrow> x = 0 \<or> x = 1"
    using ml by (auto simp: is_multilabel_def list_all_iff)
  have cs_len: "length cs = K"
    using KL KP by (simp add: cs_def transpose_mat_def)
  have cs_nth: "\<And>j. j < K \<Longrightarrow> cs ! j = (col L j, col P j)"
    using KL KP by (simp add: cs_def transpose_mat_def)
  have cols: "\<forall>c\<in>set cs. length (fst c) = N \<and> length (snd c) = N
                \<and> (\<forall>l\<in>set (fst c). l = 0 \<or> l = 1)"
  proof
    fix c assume "c \<in> set cs"
    then obtain j where j: "j < K" and c: "c = cs ! j"
      using cs_len by (metis in_set_conv_nth)
    have c': "c = (col L j, col P j)" using c cs_nth[OF j] by simp
    have "\<forall>l\<in>set (col L j). l = 0 \<or> l = 1"
    proof
      fix l assume "l \<in> set (col L j)"
      then obtain r where r: "r \<in> set (rows L)" and l: "l = r ! j"
        by (auto simp: col_def)
      then have "l \<in> set r" using lenL[OF r] j by simp
      then show "l = 0 \<or> l = 1" using binL[OF r] by simp
    qed
    then show "length (fst c) = N \<and> length (snd c) = N \<and> (\<forall>l\<in>set (fst c). l = 0 \<or> l = 1)"
      using c' NL NP by (simp add: col_def nrows_def)
  qed
  have Zlen: "length Z = N" and Zrows: "\<forall>r\<in>set Z. length r = K"
    by (simp_all add: Z_def)
  from score_columns_default[OF cols Zlen Zrows, of 0 ext] cs_len
  obtain R' where run: "score_columns ext SELF_CONFIDENCE Map.empty cs 0 (Mat K Z) = Inr (Mat K R')"
    and R'len: "length R' = N"
    and R'nth: "\<forall>n<N. length (R' ! n) = K
                \<and> (\<forall>j<K. R' ! n ! j =
                      (if 0 \<le> j \<and> j < 0 + length cs
                       then self_confidence_of (fst (cs ! (j - 0)) ! n) (snd (cs ! (j - 0)) ! n)
                       else Z ! n ! j))"
    by auto
  have R'nth2: "R' ! n ! j = self_confidence_of (col L j ! n) (col P j ! n)"
    if "n < N" "j < K" for n j
    using R'nth that cs_len cs_nth[OF that(2)] by simp
  have "R' = map2 (map2 self_confidence_of) (rows L) (rows P)"
  proof (rule nth_equalityI)
    show "length R' = length (map2 (map2 self_confidence_of) (rows L) (rows P))"
      using R'len NL NP by (simp add: nrows_def)
  next
    fix n assume "n < length R'"
    then have n: "n < N" using R'len by simp
    have rl: "rows L ! n \<in> set (rows L)" and rp: "rows P ! n \<in> set (rows P)"
      using n NL NP by (simp_all add: nrows_def)
    have "R' ! n = map2 self_confidence_of (rows L ! n) (rows P ! n)"
    proof (rule nth_equalityI)
      show "length (R' ! n) = length (map2 self_confidence_of (rows L ! n) (rows P ! n))"
        using R'nth n lenL[OF rl] lenP[OF rp] by simp
    next
      fix j assume "j < length (R' ! n)"
      then have j: "j < K" using R'nth n by simp
      show "R' ! n ! j = map2 self_confidence_of (rows L ! n) (rows P ! n) ! j"
        using R'nth2[OF n j] n j NL NP lenL[OF rl] lenP[OF rp] by (simp add: col_def nrows_def)
    qed
    then show "R' ! n = map2 (map2 self_confidence_of) (rows L) (rows P) ! n"
      using n NL NP by (simp add: nrows_def)
  qed
  then show ?thesis using run by (simp add: np_zeros_def cs_def Z_def)
qed

lemma column_order_facts:
  assumes "mset p = mset [0..<K]"
  shows "length p = K" and "set p = {0..<K}"
proof -
  show "length p = K" using assms by (metis length_upt minus_nat.diff_0 size_mset)
  show "set p = {0..<K}" using assms by (metis atLeastLessThan_upt mset_eq_setD)
qed

lemma mset_permuted_row:
  assumes "mset p = mset [0..<K]" and "length r = K"
  shows "mset (map (\<lambda>j. r ! j) p) = mset r"
proof -
  have "mset (map (\<lambda>j. r ! j) p) = image_mset (\<lambda>j. r ! j) (mset p)" by simp
  also have "\<dots> = image_mset (\<lambda>j. r ! j) (mset [0..<K])" using assms(1) by simp
  also have "\<dots> = mset (map (\<lambda>j. r ! j) [0..<length r])" using assms(2) by simp
  also have "\<dots> = mset r" by (simp add: map_nth)
  finally show ?thesis .
qed

lemma sort_permuted_row:
  assumes "mset p = mset [0..<K]" and "length (r :: real list) = K"
  shows "sort (map (\<lambda>j. r ! j) p) = sort r"
proof -
  have "mset (sort r) = mset (map (\<lambda>j. r ! j) p)"
    using mset_permuted_row[OF assms] by simp
  then show ?thesis by (rule properties_for_sort) simp
qed

lemma nrows_permute_cols: "nrows (permute_cols p m) = nrows m"
  by (simp add: permute_cols_def nrows_def)

lemma ncols_permute_cols: "ncols (permute_cols p m) = length p"
  by (simp add: permute_cols_def)

lemma wf_permute_cols: "wf_mat (permute_cols p m)"
  by (simp add: permute_cols_def wf_mat_def list_all_iff)

lemma is_multilabel_permute_cols:
  assumes "wf_mat L" and "mset p = mset [0..<ncols L]"
  shows "is_multilabel (permute_cols p L) = is_multilabel L"
proof -
  have "set (map (\<lambda>j. r ! j) p) = set r" if "r \<in> set (rows L)" for r
  proof -
    have "length r = ncols L" using assms(1) that by (auto simp: wf_mat_def list_all_iff)
    then show ?thesis using mset_permuted_row[OF assms(2)] by (metis mset_eq_setD)
  qed
  then show ?thesis
    by (auto simp: is_multilabel_def permute_cols_def list_all_iff)
qed

lemma ema_permute_cols:
  assumes "wf_mat S" and "mset p = mset [0..<ncols S]"
  shows "exponential_moving_average (permute_cols p S) alpha 1 =
         exponential_moving_average S alpha 1"
proof -
  have len: "length p = ncols S" using column_order_facts(1)[OF assms(2)] .
  have "map sort (rows (permute_cols p S)) = map sort (rows S)"
  proof -
    have "sort (map (\<lambda>j. r ! j) p) = sort r" if "r \<in> set (rows S)" for r
    proof -
      have "length r = ncols S" using assms(1) that by (auto simp: wf_mat_def list_all_iff)
      then show ?thesis by (rule sort_permuted_row[OF assms(2)])
    qed
    then show ?thesis by (simp add: permute_cols_def)
  qed
  then have "np_sort (permute_cols p S) 1 = np_sort S 1"
    using len by (simp add: np_sort_def ncols_permute_cols)
  then show ?thesis
    using len by (simp add: exponential_moving_average_def ncols_permute_cols)
qed

lemma default_aggregator_call:
  "Aggregator_call default_aggregator (Array2 S) kw =
     (if ''s'' \<in> dom kw then Inl (TypeError [])
      else exponential_moving_average S (Some (8/10)) 1)"
  by (auto simp: Aggregator_call_def validate_scores_def default_aggregator_merge
      default_aggregator_method ema_reduction_def)

lemma permuted_score_rows:
  assumes "length RL = length RP"
    and "\<forall>r\<in>set RL. length r = K" and "\<forall>r\<in>set RP. length r = K" and "set p \<subseteq> {0..<K}"
  shows "map2 (map2 f) (map (\<lambda>r. map (\<lambda>j. r ! j) p) RL) (map (\<lambda>r. map (\<lambda>j. r ! j) p) RP)
         = map (\<lambda>r. map (\<lambda>j. r ! j) p) (map2 (map2 f) RL RP)"
  using assms
proof (induction RL RP rule: list_induct2)
  case Nil
  then show ?case by simp
next
  case (Cons l RL q RP)
  have "map2 f (map (\<lambda>j. l ! j) p) (map (\<lambda>j. q ! j) p) = map (\<lambda>j. map2 f l q ! j) p"
  proof -
    have "map2 f (map (\<lambda>j. l ! j) p) (map (\<lambda>j. q ! j) p) = map (\<lambda>j. f (l ! j) (q ! j)) p"
      by (simp add: zip_map_map comp_def del: map2_map_map) (simp add: zip_same_conv_map)
    also have "\<dots> = map (\<lambda>j. map2 f l q ! j) p"
      using Cons.prems by (intro map_cong) auto
    finally show ?thesis .
  qed
  then show ?case using Cons by simp
qed

text \<open>
  Claim C4: for every N\<times>K label matrix and probability matrix with the same K columns,
  and every permutation \<open>p\<close> of the columns, applying \<open>p\<close> to both matrices leaves the
  output of the default \<open>MultilabelScorer\<close> unchanged, a raised error included: the
  scores are computed column by column, and the exponential moving average sorts every row
  before it reduces.
\<close>

theorem column_permutation_invariance:
  assumes wfL: "wf_mat labels" and wfP: "wf_mat pred_probs"
    and KP: "ncols pred_probs = ncols labels" and p: "mset p = mset [0..<ncols labels]"
  shows "MultilabelScorer_call ext default_scorer
           (permute_cols p labels) (permute_cols p pred_probs) None akw
         = MultilabelScorer_call ext default_scorer labels pred_probs None akw"
proof -
  define K where "K = ncols labels"
  define N where "N = nrows labels"
  define S where "S = Mat K (map2 (map2 self_confidence_of) (rows labels) (rows pred_probs))"
  have lenp: "length p = K" and setp: "set p = {0..<K}"
    using column_order_facts[OF p] by (simp_all add: K_def)
  have V: "validate_labels_and_pred_probs (permute_cols p labels) (permute_cols p pred_probs)
      = validate_labels_and_pred_probs labels pred_probs"
    using is_multilabel_permute_cols[OF wfL p] lenp KP
    by (simp add: validate_labels_and_pred_probs_def nrows_permute_cols ncols_permute_cols K_def)
  show ?thesis
  proof (cases "validate_labels_and_pred_probs labels pred_probs")
    case (Inl e)
    then show ?thesis
      using V by (simp add: MultilabelScorer_call_def default_scorer_def)
  next
    case (Inr u)
    then have ml: "is_multilabel labels" and NP: "nrows pred_probs = N"
      by (auto simp: validate_labels_and_pred_probs_def N_def split: if_splits)
    have lenL: "\<forall>r\<in>set (rows labels). length r = K"
      using wfL by (auto simp: wf_mat_def list_all_iff K_def)
    have lenP: "\<forall>r\<in>set (rows pred_probs). length r = K"
      using wfP KP by (auto simp: wf_mat_def list_all_iff K_def)
    have same: "length (rows labels) = length (rows pred_probs)"
      using NP by (simp add: N_def nrows_def)
    have plain: "score_columns ext SELF_CONFIDENCE Map.empty
        (zip (rows (transpose_mat labels)) (rows (transpose_mat pred_probs))) 0 (np_zeros N K)
        = Inr S"
      unfolding S_def
      using default_score_matrix[OF wfL wfP _ _ _ NP ml, of K ext] KP
      by (simp add: K_def N_def)
    have "score_columns ext SELF_CONFIDENCE Map.empty
        (zip (rows (transpose_mat (permute_cols p labels)))
             (rows (transpose_mat (permute_cols p pred_probs)))) 0 (np_zeros N K)
        = Inr (Mat K (map2 (map2 self_confidence_of) (rows (permute_cols p labels))
                        (rows (permute_cols p pred_probs))))"
      using default_score_matrix[where L = "permute_cols p labels"
            and P = "permute_cols p pred_probs" and K = K and N = N and ext = ext,
            OF wf_permute_cols wf_permute_cols]
        is_multilabel_permute_cols[OF wfL p] ml NP lenp
      by (simp add: ncols_permute_cols nrows_permute_cols N_def)
    also have "map2 (map2 self_confidence_of) (rows (permute_cols p labels))
                        (rows (permute_cols p pred_probs))
        = rows (permute_cols p S)"
      using permuted_score_rows[OF same lenL lenP, of p self_confidence_of] setp
      by (simp add: permute_cols_def S_def)
    finally have permuted: "score_columns ext SELF_CONFIDENCE Map.empty
        (zip (rows (transpose_mat (permute_cols p labels)))
             (rows (transpose_mat (permute_cols p pred_probs)))) 0 (np_zeros N K)
        = Inr (permute_cols p S)"
      using lenp by (simp add: permute_cols_def)
    have wfS: "wf_mat S"
      using lenL lenP by (auto simp: S_def wf_mat_def list_all_iff set_zip)
    have KS: "ncols S = K" by (simp add: S_def)
    have agg: "Aggregator_call default_aggregator (Array2 (permute_cols p S)) akw
        = Aggregator_call default_aggregator (Array2 S) akw"
      using ema_permute_cols[OF wfS, of p "Some (8/10)"] p KS
      by (simp add: default_aggregator_call K_def)
    show ?thesis
      using V Inr plain permuted agg lenp
      by (simp add: MultilabelScorer_call_def default_scorer_def nrows_permute_cols
          ncols_permute_cols N_def K_def)
  qed
qed

theorem column_permutation_invariance_witness:
  "MultilabelScorer_call sample_externals default_scorer
       (Mat 3 [[0, 0, 1], [1, 1, 0]])
       (Mat 3 [[1/10, 1/10, 9/10], [9/10, 4/10, 1/10]]) None Map.empty
   = MultilabelScorer_call sample_externals default_scorer
       (Mat 3 [[0, 1, 0], [1, 0, 1]])
       (Mat 3 [[1/10, 9/10, 1/10], [4/10, 1/10, 9/10]]) None Map.empty"
proof -
  have w: "wf_mat (Mat 3 [[0, 1, 0], [1, 0, 1::int]])"
    "wf_mat (Mat 3 [[1/10, 9/10, 1/10], [4/10, 1/10, 9/10::real]])"
    by (simp_all add: wf_mat_def)
  have p: "mset [2, 0, 1::nat] = mset [0..<ncols (Mat 3 [[0, 1, 0], [1, 0, 1::int]])]"
    by (simp add: upt_rec)
  have e1: "permute_cols [2, 0, 1] (Mat 3 [[0, 1, 0], [1, 0, 1::int]])
      = Mat 3 [[0, 0, 1], [1, 1, 0]]"
    and e2: "permute_cols [2, 0, 1] (Mat 3 [[1/10, 9/10, 1/10], [4/10, 1/10, 9/10::real]])
      = Mat 3 [[1/10, 1/10, 9/10], [9/10, 4/10, 1/10]]"
    by (simp_all add: permute_cols_def)
  have "ncols (Mat 3 [[1/10, 9/10, 1/10], [4/10, 1/10, 9/10::real]])
      = ncols (Mat 3 [[0, 1, 0], [1, 0, 1::int]])"
    by simp
  from column_permutation_invariance[OF w this p, of sample_externals Map.empty]
  show ?thesis
    unfolding e1 e2 .
qed

section \<open>Properties of the prior over label configurations\<close>

lemma binary_key_bin_value: "length c = K \<Longrightarrow> binary_key K c = bin_value c"
proof (induction c arbitrary: K)
  case Nil
  then show ?case by (simp add: binary_key_def)
next
  case (Cons b c)
  then obtain n where K: "K = Suc n" and n: "length c = n" by (cases K) auto
  have "binary_key (Suc n) (b # c) = b * 2 ^ n + binary_key n c"
    by (simp add: binary_key_def)
  then show ?case using Cons.IH[OF n] K n by simp
qed

lemma bin_value_bounds: "set c \<subseteq> {0, 1} \<Longrightarrow> 0 \<le> bin_value c \<and> bin_value c < 2 ^ length c"
  by (induction c) auto

lemma bin_value_strict_mono:
  "length c = length d \<Longrightarrow> set c \<subseteq> {0, 1} \<Longrightarrow> set d \<subseteq> {0, 1} \<Longrightarrow> c < d \<Longrightarrow>
   bin_value c < bin_value d"
proof (induction c d rule: list_induct2)
  case Nil
  then show ?case by simp
next
  case (Cons x xs y ys)
  from Cons.prems(3) have "x < y \<or> (x = y \<and> xs < ys)" by simp
  then show ?case
  proof
    assume "x < y"
    then have "x = 0" "y = 1" using Cons.prems(1,2) by auto
    moreover have "bin_value xs < 2 ^ length xs" using bin_value_bounds[of xs] Cons.prems(1) by simp
    moreover have "0 \<le> bin_value ys" using bin_value_bounds[of ys] Cons.prems(2) by simp
    ultimately show ?thesis using Cons.hyps by simp
  next
    assume "x = y \<and> xs < ys"
    then show ?thesis using Cons by simp
  qed
qed

lemma bin_value_inj:
  assumes "c \<in> configurations K" "d \<in> configurations K" "bin_value c = bin_value d"
  shows "c = d"
proof (rule ccontr)
  assume "c \<noteq> d"
  then have "c < d \<or> d < c" by auto
  then show False
    using assms bin_value_strict_mono[of c d] bin_value_strict_mono[of d c]
    by (auto simp: configurations_def)
qed

lemma set_product_repeat: "set (product_repeat [0, 1] K) = configurations K"
proof (induction K)
  case 0
  then show ?case by (auto simp: configurations_def)
next
  case (Suc K)
  have "configurations (Suc K) = (#) 0 ` configurations K \<union> (#) 1 ` configurations K"
  proof (rule set_eqI)
    fix c :: "int list"
    show "c \<in> configurations (Suc K) \<longleftrightarrow> c \<in> (#) 0 ` configurations K \<union> (#) 1 ` configurations K"
      by (cases c) (auto simp: configurations_def)
  qed
  then show ?case using Suc by simp
qed

lemma distinct_product_repeat: "distinct (product_repeat [0, 1::int] K)"
  by (induction K) (auto simp: distinct_map)

lemma length_product_repeat: "length (product_repeat [0, 1::int] K) = 2 ^ K"
  by (induction K) auto

lemma finite_configurations: "finite (configurations K)"
  by (metis List.finite_set set_product_repeat)

lemma card_configurations: "card (configurations K) = 2 ^ K"
  by (metis distinct_card distinct_product_repeat length_product_repeat set_product_repeat)

lemma bin_value_image: "bin_value ` configurations K = {0..<2 ^ K}"
proof (rule card_subset_eq)
  show "finite {0..<(2::int) ^ K}" by simp
  show "bin_value ` configurations K \<subseteq> {0..<2 ^ K}"
    using bin_value_bounds by (auto simp: configurations_def)
  have "inj_on bin_value (configurations K)"
    by (rule inj_onI) (rule bin_value_inj)
  then show "card (bin_value ` configurations K) = card {0..<(2::int) ^ K}"
    by (simp add: card_image card_configurations)
qed

lemma sorted_distinct_initial_segment:
  assumes "sorted ks" and "distinct ks" and "set ks = {0..<int n}"
  shows "ks = map int [0..<n]"
proof (rule sorted_distinct_set_unique)
  show "sorted ks" "distinct ks" by fact+
  show "sorted (map int [0..<n])" by (simp add: sorted_map)
  show "distinct (map int [0..<n])" by (simp add: distinct_map)
  show "set ks = set (map int [0..<n])" using assms(3) by (simp add: image_int_atLeastLessThan)
qed

lemma argsort_initial_segment:
  assumes "distinct ks" and "set ks = {0..<int (length ks)}"
  shows "map (\<lambda>i. ks ! i) (argsort ks) = map int [0..<length ks]"
    and "mset (argsort ks) = mset [0..<length ks]"
proof -
  show m: "mset (argsort ks) = mset [0..<length ks]"
    by (simp add: argsort_def)
  have "mset (map (\<lambda>i. ks ! i) (argsort ks)) = mset (map (\<lambda>i. ks ! i) [0..<length ks])"
    using m by (metis mset_map)
  then have ms: "mset (map (\<lambda>i. ks ! i) (argsort ks)) = mset ks"
    by (simp add: map_nth)
  have "sorted (map (\<lambda>i. ks ! i) (argsort ks))"
    by (simp add: argsort_def)
  moreover have "distinct (map (\<lambda>i. ks ! i) (argsort ks))"
    using ms assms(1) by (metis mset_eq_imp_distinct_iff)
  moreover have "set (map (\<lambda>i. ks ! i) (argsort ks)) = {0..<int (length ks)}"
    using ms assms(2) by (metis mset_eq_setD)
  ultimately show "map (\<lambda>i. ks ! i) (argsort ks) = map int [0..<length ks]"
    by (rule sorted_distinct_initial_segment)
qed

lemma is_configuration_iff: "is_configuration K c \<longleftrightarrow> c \<in> configurations K"
  by (auto simp: is_configuration_def configurations_def list_all_iff)

lemma rows_are_configurations:
  "wf_mat y \<Longrightarrow> is_multilabel y \<Longrightarrow> set (rows y) \<subseteq> configurations (ncols y)"
  by (auto simp: wf_mat_def is_multilabel_def list_all_iff configurations_def)

lemma counts_by_binary_value:
  assumes wf: "wf_mat y" and bin: "is_multilabel y" and ord: "\<forall>xs. mset (order xs) = mset xs"
  shows "\<exists>B. distinct B \<and> set B = configurations (ncols y) \<and> length B = 2 ^ ncols y
            \<and> (\<forall>v<2 ^ ncols y. bin_value (B ! v) = int v)
            \<and> fix_missing_class_count order (ncols y)
                 (fst (np_unique_rows y)) (snd (np_unique_rows y))
               = map (\<lambda>c. real (count_list (rows y) c)) B"
proof -
  define K where "K = ncols y"
  define U where "U = sort (remdups (rows y))"
  define g where "g = (\<lambda>c. real (count_list (rows y) c))"
  have fstU: "fst (np_unique_rows y) = U" and sndU: "snd (np_unique_rows y) = map (count_list (rows y)) U"
    by (simp_all add: np_unique_rows_def U_def Let_def)
  have setU: "set U = set (rows y)" and dU: "distinct U" and sU: "sorted U"
    by (simp_all add: U_def)
  have subU: "set U \<subseteq> configurations K"
    using rows_are_configurations[OF wf bin] setU by (simp add: K_def)
  have lenU: "length U \<le> 2 ^ K"
    using card_mono[OF finite_configurations subU] distinct_card[OF dU]
    by (simp add: card_configurations)
  show ?thesis
  proof (cases "length U < 2 ^ K")
    case False
    then have len: "length U = 2 ^ K" using lenU by simp
    then have "card (set U) = card (configurations K)"
      using distinct_card[OF dU] by (simp add: card_configurations)
    then have all: "set U = configurations K"
      using card_subset_eq[OF finite_configurations subU] by simp
    have strict: "sorted_wrt (<) U"
      using sU dU by (simp add: strict_sorted_iff)
    have "sorted_wrt (\<lambda>c d. bin_value c < bin_value d) U"
    proof (rule sorted_wrt_mono_rel[OF _ strict])
      fix c d assume "c \<in> set U" "d \<in> set U" "c < d"
      then show "bin_value c < bin_value d"
        using subU bin_value_strict_mono[of c d] by (auto simp: configurations_def)
    qed
    then have "sorted_wrt (<) (map bin_value U)"
      by (simp add: sorted_wrt_map)
    then have "sorted (map bin_value U)" and "distinct (map bin_value U)"
      by (simp_all add: strict_sorted_iff)
    moreover have "set (map bin_value U) = {0..<int (2 ^ K)}"
      using all bin_value_image[of K] by simp
    ultimately have "map bin_value U = map int [0..<2 ^ K]"
      by (rule sorted_distinct_initial_segment)
    then have "\<forall>v<2 ^ K. bin_value (U ! v) = int v"
      using len by (metis length_map nth_map nth_upt add_0 length_upt minus_nat.diff_0)
    moreover have "fix_missing_class_count order K U (map (count_list (rows y)) U) = map g U"
      using False by (simp add: fix_missing_class_count_def g_def)
    ultimately show ?thesis
      using dU all len fstU sndU by (auto simp: K_def g_def)
  next
    case True
    define M where "M = order (filter (\<lambda>c. c \<notin> set U) (product_repeat [0, 1] K))"
    define A where "A = U @ M"
    define keys where "keys = map (binary_key K) A"
    define ids where "ids = argsort keys"
    define B where "B = map (\<lambda>i. A ! i) ids"
    have msM: "mset M = mset (filter (\<lambda>c. c \<notin> set U) (product_repeat [0, 1] K))"
      using ord by (simp add: M_def)
    have dM: "distinct M"
      using msM distinct_product_repeat[of K] by (metis distinct_filter mset_eq_imp_distinct_iff)
    have setM: "set M = configurations K - set U"
      using mset_eq_setD[OF msM] by (auto simp: set_product_repeat)
    have dA: "distinct A" using dU dM setM by (auto simp: A_def)
    have setA: "set A = configurations K" using subU setM by (auto simp: A_def)
    have lenA: "length A = 2 ^ K"
      using distinct_card[OF dA] setA by (simp add: card_configurations)
    have keys_bin: "keys = map bin_value A"
      unfolding keys_def
      by (rule map_cong[OF refl], rule binary_key_bin_value) (use setA in \<open>auto simp: configurations_def\<close>)
    have lenkeys: "length keys = 2 ^ K" using lenA by (simp add: keys_def)
    have dkeys: "distinct keys"
      unfolding keys_bin using dA setA
      by (auto simp: distinct_map intro!: inj_onI bin_value_inj[of _ K])
    have setkeys: "set keys = {0..<int (length keys)}"
      using setA bin_value_image[of K] lenkeys by (simp add: keys_bin)
    have ids1: "map (\<lambda>i. keys ! i) ids = map int [0..<2 ^ K]"
      and ids2: "mset ids = mset [0..<2 ^ K]"
      using argsort_initial_segment[OF dkeys setkeys] lenkeys by (simp_all add: ids_def)
    have lenids: "length ids = 2 ^ K"
      using ids2 by (metis length_upt minus_nat.diff_0 size_mset)
    have idsrange: "\<And>i. i \<in> set ids \<Longrightarrow> i < 2 ^ K"
      using mset_eq_setD[OF ids2] by auto
    have "mset B = mset (map (\<lambda>i. A ! i) [0..<length A])"
      unfolding B_def using ids2 lenA by (metis mset_map)
    then have msB: "mset B = mset A" by (simp add: map_nth)
    have dB: "distinct B" using msB dA by (metis mset_eq_imp_distinct_iff)
    have setB: "set B = configurations K" using msB setA by (metis mset_eq_setD)
    have lenB: "length B = 2 ^ K" using lenids by (simp add: B_def)
    have valB: "\<forall>v<2 ^ K. bin_value (B ! v) = int v"
    proof (intro allI impI)
      fix v :: nat assume v: "v < 2 ^ K"
      then have iv: "ids ! v < 2 ^ K" using idsrange lenids by simp
      have "keys ! (ids ! v) = int v"
        using ids1 v lenids by (metis length_map nth_map nth_upt add_0 length_upt minus_nat.diff_0)
      then show "bin_value (B ! v) = int v"
        using iv v lenids lenA by (simp add: B_def keys_bin)
    qed
    have zero: "\<And>c. c \<in> set M \<Longrightarrow> count_list (rows y) c = 0"
      using setM setU by (simp add: count_list_0_iff)
    have C: "map real (map (count_list (rows y)) U) @ replicate (length M) 0 = map g A"
    proof -
      have "replicate (length M) (0::real) = map g M"
        using zero by (simp add: g_def map_replicate_const[symmetric] cong: map_cong)
      then show ?thesis by (simp add: A_def g_def)
    qed
    have "fix_missing_class_count order K U (map (count_list (rows y)) U)
        = map (\<lambda>i. (map real (map (count_list (rows y)) U) @ replicate (length M) 0) ! i) ids"
      using True
      by (simp only: fix_missing_class_count_def Let_def M_def A_def keys_def ids_def if_True)
    also have "\<dots> = map (\<lambda>i. map g A ! i) ids"
      by (simp only: C)
    also have "\<dots> = map g B"
      unfolding B_def using idsrange lenA by (simp add: comp_def)
    finally have "fix_missing_class_count order K U (map (count_list (rows y)) U) = map g B" .
    then show ?thesis
      using dB setB lenB valB fstU sndU by (auto simp: K_def g_def)
  qed
qed

lemma sum_list_divide_const:
  "sum_list (map (\<lambda>c. f c / (n::real)) B) = sum_list (map f B) / n"
  by (induction B) (simp_all add: add_divide_distrib)

lemma sum_counts_over_configurations:
  assumes "distinct B" and "set ys \<subseteq> set B"
  shows "sum_list (map (\<lambda>c. real (count_list ys c)) B) = real (length ys)"
proof -
  have "sum_list (map (\<lambda>c. real (count_list ys c)) B) = (\<Sum>c\<in>set B. real (count_list ys c))"
    using assms(1) by (simp add: sum_list_distinct_conv_sum_set)
  also have "\<dots> = real (\<Sum>c\<in>set B. count_list ys c)" by simp
  also have "\<dots> = real (length ys)"
    using sum_count_set[OF assms(2)] by simp
  finally show ?thesis .
qed

lemma multilabel_py_by_value:
  assumes wf: "wf_mat y" and bin: "is_multilabel y" and ord: "\<forall>xs. mset (order xs) = mset xs"
    and N: "1 \<le> nrows y"
  shows "\<exists>B. distinct B \<and> set B = configurations (ncols y) \<and> length B = 2 ^ ncols y
            \<and> (\<forall>v<2 ^ ncols y. bin_value (B ! v) = int v)
            \<and> multilabel_py order y
               = map (\<lambda>c. Fin (real (count_list (rows y) c) / real (nrows y))) B"
proof -
  from counts_by_binary_value[OF wf bin ord]
  obtain B where B: "distinct B" "set B = configurations (ncols y)" "length B = 2 ^ ncols y"
      "\<forall>v<2 ^ ncols y. bin_value (B ! v) = int v"
      "fix_missing_class_count order (ncols y) (fst (np_unique_rows y)) (snd (np_unique_rows y))
       = map (\<lambda>c. real (count_list (rows y) c)) B"
    by blast
  have "multilabel_py order y
      = map (\<lambda>c. np_divide c (nrows y))
          (fix_missing_class_count order (ncols y) (fst (np_unique_rows y)) (snd (np_unique_rows y)))"
    by (simp add: multilabel_py_def Let_def case_prod_beta)
  also have "\<dots> = map (\<lambda>c. Fin (real (count_list (rows y) c) / real (nrows y))) B"
    using N by (simp add: B(5) np_divide_def comp_def)
  finally show ?thesis using B(1-4) by blast
qed

text \<open>
  Claim C3, as stated: for every N\<times>K binary label matrix the result has non-negative
  entries that sum to 1. For a matrix without rows (N = 0) every count is 0 and is divided
  by 0: all \<open>2 ^ K\<close> entries are NaN.
\<close>

theorem multilabel_py_empty_counterexample:
  "wf_mat (Mat 2 []) \<and> is_multilabel (Mat 2 [])
   \<and> multilabel_py id (Mat 2 []) = [NaN, NaN, NaN, NaN]"
  by (simp add: wf_mat_def is_multilabel_def multilabel_py_def np_unique_rows_def
      fix_missing_class_count_def nrows_def np_divide_def argsort_def binary_key_def upt_rec
      numeral_2_eq_2)

text \<open>
  Claim C3, amended: for every N\<times>K binary label matrix with N \<ge> 1, and whatever the
  order in which Python iterates over the set of missing configurations,
  \<open>multilabel_py\<close> returns a vector of length exactly \<open>2 ^ K\<close>; its entry at the
  big-endian binary value of a K-bit configuration (first column most significant) is the
  number of rows equal to that configuration divided by N, so 0 for a configuration absent
  from the input; the entries are non-negative and sum to 1. In particular
  \<open>multilabel_py [[0,0],[0,1],[1,0],[1,1],[1,0]] = [0.2, 0.2, 0.4, 0.2]\<close>.
\<close>

theorem multilabel_py_prior:
  assumes wf: "wf_mat y" and bin: "is_multilabel y" and N: "1 \<le> nrows y"
    and ord: "\<forall>xs. mset (order xs) = mset xs"
  shows "length (multilabel_py order y) = 2 ^ ncols y
       \<and> (\<forall>c. is_configuration (ncols y) c \<longrightarrow>
             0 \<le> bin_value c \<and> nat (bin_value c) < 2 ^ ncols y
             \<and> multilabel_py order y ! nat (bin_value c)
                 = Fin (real (count_list (rows y) c) / real (nrows y)))
       \<and> (\<forall>c. is_configuration (ncols y) c \<and> c \<notin> set (rows y) \<longrightarrow>
             multilabel_py order y ! nat (bin_value c) = Fin 0)
       \<and> (\<forall>v<2 ^ ncols y. \<exists>c. is_configuration (ncols y) c \<and> nat (bin_value c) = v)
       \<and> (\<exists>ps. multilabel_py order y = map Fin ps \<and> (\<forall>x\<in>set ps. 0 \<le> x) \<and> sum_list ps = 1)
       \<and> multilabel_py order (Mat 2 [[0, 0], [0, 1], [1, 0], [1, 1], [1, 0]])
           = [Fin (2/10), Fin (2/10), Fin (4/10), Fin (2/10)]"
proof -
  from multilabel_py_by_value[OF wf bin ord N]
  obtain B where B: "distinct B" "set B = configurations (ncols y)" "length B = 2 ^ ncols y"
      "\<forall>v<2 ^ ncols y. bin_value (B ! v) = int v"
      and py: "multilabel_py order y
         = map (\<lambda>c. Fin (real (count_list (rows y) c) / real (nrows y))) B"
    by blast
  have 1: "length (multilabel_py order y) = 2 ^ ncols y"
    using B(3) py by simp
  have 2: "\<forall>c. is_configuration (ncols y) c \<longrightarrow>
             0 \<le> bin_value c \<and> nat (bin_value c) < 2 ^ ncols y
             \<and> multilabel_py order y ! nat (bin_value c)
                 = Fin (real (count_list (rows y) c) / real (nrows y))"
  proof (intro allI impI)
    fix c assume "is_configuration (ncols y) c"
    then have "c \<in> set B" using B(2) by (simp add: is_configuration_iff)
    then obtain v where v: "v < length B" "B ! v = c" by (auto simp: in_set_conv_nth)
    then have "bin_value c = int v" using B(3,4) by auto
    then show "0 \<le> bin_value c \<and> nat (bin_value c) < 2 ^ ncols y
             \<and> multilabel_py order y ! nat (bin_value c)
                 = Fin (real (count_list (rows y) c) / real (nrows y))"
      using v py B(3) by simp
  qed
  have 3: "\<forall>c. is_configuration (ncols y) c \<and> c \<notin> set (rows y) \<longrightarrow>
             multilabel_py order y ! nat (bin_value c) = Fin 0"
    using 2 by (simp add: count_list_0_iff)
  have 4: "\<forall>v<2 ^ ncols y. \<exists>c. is_configuration (ncols y) c \<and> nat (bin_value c) = v"
  proof (intro allI impI)
    fix v :: nat assume v: "v < 2 ^ ncols y"
    then have "B ! v \<in> set B" using B(3) by simp
    then have "is_configuration (ncols y) (B ! v)" using B(2) by (simp add: is_configuration_iff)
    moreover have "nat (bin_value (B ! v)) = v" using B(4) v by simp
    ultimately show "\<exists>c. is_configuration (ncols y) c \<and> nat (bin_value c) = v" by blast
  qed
  have "sum_list (map (\<lambda>c. real (count_list (rows y) c) / real (nrows y)) B) = 1"
  proof -
    have "set (rows y) \<subseteq> set B"
      using rows_are_configurations[OF wf bin] B(2) by simp
    then have "sum_list (map (\<lambda>c. real (count_list (rows y) c)) B) = real (nrows y)"
      using sum_counts_over_configurations[OF B(1)] by (simp add: nrows_def)
    then show ?thesis using N by (simp add: sum_list_divide_const)
  qed
  then have 5: "\<exists>ps. multilabel_py order y = map Fin ps \<and> (\<forall>x\<in>set ps. 0 \<le> x) \<and> sum_list ps = 1"
    using py
    by (intro exI[of _ "map (\<lambda>c. real (count_list (rows y) c) / real (nrows y)) B"])
       (auto simp: comp_def)
  have 6: "multilabel_py order (Mat 2 [[0, 0], [0, 1], [1, 0], [1, 1], [1, 0]])
           = [Fin (2/10), Fin (2/10), Fin (4/10), Fin (2/10)]"
    by (simp add: multilabel_py_def np_unique_rows_def fix_missing_class_count_def nrows_def
        np_divide_def)
  show ?thesis using 1 2 3 4 5 6 by (intro conjI)
qed

theorem multilabel_py_prior_witness:
  "length (multilabel_py rev (Mat 2 [[1, 1], [0, 1], [1, 1]])) = 4
   \<and> multilabel_py rev (Mat 2 [[1, 1], [0, 1], [1, 1]]) ! 1 = Fin (1/3)
   \<and> multilabel_py rev (Mat 2 [[1, 1], [0, 1], [1, 1]]) ! 3 = Fin (2/3)
   \<and> multilabel_py rev (Mat 2 [[1, 1], [0, 1], [1, 1]]) ! 2 = Fin 0"
proof -
  let ?y = "Mat 2 [[1, 1], [0, 1], [1, 1::int]]"
  have h: "wf_mat ?y" "is_multilabel ?y" "1 \<le> nrows ?y" "\<forall>xs::int list list. mset (rev xs) = mset xs"
    by (simp_all add: wf_mat_def is_multilabel_def nrows_def)
  note T = multilabel_py_prior[OF h]
  have c: "is_configuration (ncols ?y) [0, 1]" "is_configuration (ncols ?y) [1, 1]"
    "is_configuration (ncols ?y) [1, 0]"
    by (simp_all add: is_configuration_def)
  have a1: "length (multilabel_py rev ?y) = 2 ^ ncols ?y"
    using T by (rule conjunct1)
  note a2 = T[THEN conjunct2, THEN conjunct1, THEN spec, THEN mp]
  have n: "nat (bin_value [0, 1]) = 1" "nat (bin_value [1, 1]) = 3" "nat (bin_value [1, 0]) = 2"
    by simp_all
  show ?thesis
    using a1 a2[OF c(1)] a2[OF c(2)] a2[OF c(3)] unfolding n
    by (simp add: nrows_def)
qed

end
